theory Spec2Isabelle
  imports Main "HOL-Library.Sublist"
begin

section \<open>Data model\<close>

text \<open>
  The schema messages (\<^verbatim>\<open>sysprop::Properties\<close>, \<^verbatim>\<open>sysprop::Property\<close>) are generated from
  a protocol description that is not among the sources. The records below carry exactly
  the fields that the sources read: \<^verbatim>\<open>Common.cpp\<close>, \<^verbatim>\<open>CppGen.cpp\<close> and \<^verbatim>\<open>JavaGen.cpp\<close>
  read \<^verbatim>\<open>name\<close>, \<^verbatim>\<open>readonly\<close> (an optional field, tested with \<^verbatim>\<open>has_readonly\<close>), \<^verbatim>\<open>type\<close>,
  \<^verbatim>\<open>scope\<close> and \<^verbatim>\<open>enum_values\<close>; \<^verbatim>\<open>RustGen.cpp\<close> reads \<^verbatim>\<open>api_name\<close>, \<^verbatim>\<open>prop_name\<close>,
  \<^verbatim>\<open>access\<close>, \<^verbatim>\<open>deprecated\<close>, \<^verbatim>\<open>legacy_prop_name\<close> and \<^verbatim>\<open>integer_as_bool\<close> as well.
  The constructors of \<open>Type\<close> are the sixteen cases of the switch in \<^verbatim>\<open>GetRustReturnType\<close>.
\<close>

datatype Owner = Platform | Vendor | Odm

datatype Scope = Public | System | Internal

datatype Access = Readonly | Writeonce | ReadWrite

datatype Type =
  Boolean | Integer | UInt | Long | ULong | Double | String | Enum
  | BooleanList | IntegerList | UIntList | LongList | ULongList | DoubleList
  | StringList | EnumList

record Property =
  name :: string
  type :: Type
  scope :: Scope
  readonly :: "bool option"
  enum_values :: string
  api_name :: string
  prop_name :: string
  access :: Access
  deprecated :: bool
  legacy_prop_name :: string
  integer_as_bool :: bool

text \<open>The repeated field \<^verbatim>\<open>prop\<close> of the schema is \<open>prop_list\<close> here.\<close>

record Properties =
  owner :: Owner
  module :: string
  prefix :: string
  prop_list :: "Property list"

text \<open>The accessor \<^verbatim>\<open>prop.readonly()\<close> of an optional boolean: the stored value, and
  \<open>False\<close> while the field is unset.\<close>

definition get_readonly :: "Property \<Rightarrow> bool" where
  "get_readonly p = (case readonly p of None \<Rightarrow> False | Some b \<Rightarrow> b)"

section \<open>Library functions used by the sources\<close>

text \<open>\<^verbatim>\<open>android::base::Split(s, delimiters)\<close>: cuts \<open>s\<close> at every character that occurs
  in \<open>delimiters\<close>. The result always has at least one token; the empty string gives one
  empty token.\<close>

fun Split :: "string \<Rightarrow> string \<Rightarrow> string list" where
  "Split [] ds = [[]]"
| "Split (c # cs) ds =
     (if c \<in> set ds then [] # Split cs ds
      else (case Split cs ds of
              t # ts \<Rightarrow> (c # t) # ts
            | [] \<Rightarrow> [[c]]))"

text \<open>The line break, \<^verbatim>\<open>\n\<close> in the format strings of the sources.\<close>

definition nl :: string where
  "nl = [CHR 0x0A]"

text \<open>\<^verbatim>\<open>android::base::StartsWith(s, prefix)\<close>.\<close>

definition StartsWith :: "string \<Rightarrow> string \<Rightarrow> bool" where
  "StartsWith s p = (take (length p) s = p)"

text \<open>\<^verbatim>\<open>std::isalpha\<close> and \<^verbatim>\<open>std::isdigit\<close> in the C locale.\<close>

definition isalpha :: "char \<Rightarrow> bool" where
  "isalpha c = (let n = (of_char c :: nat) in (65 \<le> n \<and> n \<le> 90) \<or> (97 \<le> n \<and> n \<le> 122))"

definition isdigit :: "char \<Rightarrow> bool" where
  "isdigit c = (let n = (of_char c :: nat) in 48 \<le> n \<and> n \<le> 57)"

text \<open>\<^verbatim>\<open>std::regex_replace(s, kRegexDot, r)\<close>: every dot of \<open>s\<close> becomes \<open>r\<close>.\<close>

definition regex_replace_dot :: "string \<Rightarrow> string \<Rightarrow> string" where
  "regex_replace_dot s r = concat (map (\<lambda>c. if c = CHR ''.'' then r else [c]) s)"

section \<open>Common.cpp\<close>

text \<open>\<^verbatim>\<open>IsCorrectIdentifier\<close>: non-empty, a letter or underscore first, then letters,
  underscores and digits.\<close>

definition IsCorrectIdentifier :: "string \<Rightarrow> bool" where
  "IsCorrectIdentifier nm =
     (case nm of
        [] \<Rightarrow> False
      | c # cs \<Rightarrow>
          if \<not> isalpha c \<and> c \<noteq> CHR ''_'' then False
          else list_all (\<lambda>d. isalpha d \<or> d = CHR ''_'' \<or> isdigit d) cs)"

definition IsCorrectPropertyName :: "string \<Rightarrow> bool" where
  "IsCorrectPropertyName nm =
     (if nm = [] then False
      else list_all IsCorrectIdentifier (Split nm ''.''))"

text \<open>\<^verbatim>\<open>PropNameToIdentifier\<close>: every dot becomes an underscore.\<close>

definition PropNameToIdentifier :: "string \<Rightarrow> string" where
  "PropNameToIdentifier nm = regex_replace_dot nm ''_''"

text \<open>The loop over an \<^verbatim>\<open>unordered_set\<close> that stops at the first element whose insertion
  fails: the first element that occurred before.\<close>

fun first_duplicate :: "string set \<Rightarrow> string list \<Rightarrow> string option" where
  "first_duplicate seen [] = None"
| "first_duplicate seen (x # xs) =
     (if x \<in> seen then Some x else first_duplicate (insert x seen) xs)"

text \<open>The enum block of \<^verbatim>\<open>ValidateProp\<close> (lines 80 to 106).\<close>

definition ValidateEnumValues :: "Property \<Rightarrow> string + unit" where
  "ValidateEnumValues p =
     (let names = Split (enum_values p) ''|'' in
      if names = [] then
        Inl (''Enum values are empty for prop \"'' @ name p @ ''\"'')
      else
        case find (\<lambda>n. \<not> IsCorrectIdentifier n) names of
          Some n \<Rightarrow>
            Inl (''Invalid enum value \"'' @ n @ ''\" for prop \"'' @ name p @ ''\"'')
        | None \<Rightarrow>
            (case first_duplicate {} names of
               Some n \<Rightarrow>
                 Inl (''Duplicated enum value \"'' @ n @ ''\" for prop \"'' @ name p @ ''\"'')
             | None \<Rightarrow> Inr ()))"

definition ValidateProp :: "Properties \<Rightarrow> Property \<Rightarrow> string + unit" where
  "ValidateProp props p =
     (if \<not> IsCorrectPropertyName (name p) then
        Inl (''Invalid prop name \"'' @ name p @ ''\"'')
      else
        case (if type p = Enum \<or> type p = EnumList then ValidateEnumValues p else Inr ()) of
          Inl e \<Rightarrow> Inl e
        | Inr _ \<Rightarrow>
            if owner props = Platform \<and>
               (StartsWith (prefix props @ name p) ''vendor.'' \<or>
                StartsWith (prefix props @ name p) ''odm.'')
            then Inl (''Prop \"'' @ name p @
                      ''\" owned by platform cannot have vendor. or odm. namespace'')
            else Inr ())"

text \<open>The first loop over the properties in \<^verbatim>\<open>ValidateProps\<close> (lines 146 to 149).\<close>

fun ValidateEachProp :: "Properties \<Rightarrow> Property list \<Rightarrow> string + unit" where
  "ValidateEachProp props [] = Inr ()"
| "ValidateEachProp props (p # ps) =
     (case ValidateProp props p of
        Inl e \<Rightarrow> Inl e
      | Inr _ \<Rightarrow> ValidateEachProp props ps)"

text \<open>The second loop (lines 151 to 161): the first property whose flattened name was
  inserted before.\<close>

fun first_duplicate_prop :: "string set \<Rightarrow> Property list \<Rightarrow> Property option" where
  "first_duplicate_prop seen [] = None"
| "first_duplicate_prop seen (p # ps) =
     (if PropNameToIdentifier (name p) \<in> seen then Some p
      else first_duplicate_prop (insert (PropNameToIdentifier (name p)) seen) ps)"

definition ValidateProps :: "Properties \<Rightarrow> string + unit" where
  "ValidateProps props =
     (let names = Split (module props) ''.'' in
      if length names \<le> 1 then
        Inl (''Invalid module name \"'' @ module props @ ''\"'')
      else
        case find (\<lambda>n. \<not> IsCorrectIdentifier n) names of
          Some n \<Rightarrow> Inl (''Invalid name \"'' @ n @ ''\" in module'')
        | None \<Rightarrow>
            if prefix props \<noteq> [] \<and> \<not> IsCorrectPropertyName (prefix props) then
              Inl (''Invalid prefix \"'' @ prefix props @ ''\"'')
            else if prop_list props = [] then
              Inl ''There is no defined property''
            else
              case ValidateEachProp props (prop_list props) of
                Inl e \<Rightarrow> Inl e
              | Inr _ \<Rightarrow>
                  (case first_duplicate_prop {} (prop_list props) of
                     Some p \<Rightarrow> Inl (''Duplicated prop name \"'' @ name p @ ''\"'')
                   | None \<Rightarrow>
                       if owner props = Platform then
                         (if module props \<noteq> ''android.os.PlatformProperties'' then
                            Inl (''Platform-defined properties should have '' @
                                 ''\"android.os.PlatformProperties\" as module name'')
                          else Inr ())
                       else
                         (if module props = ''android.os.PlatformProperties'' then
                            Inl (''Vendor or Odm cannot use \"android.os.PlatformProperties\" as '' @
                                 ''module name'')
                          else Inr ())))"

text \<open>\<^verbatim>\<open>ParseProps\<close> after the file has been read and deserialised (both done by
  libraries): validation, then the default of every unset \<^verbatim>\<open>readonly\<close>.\<close>

definition ParseProps :: "Properties \<Rightarrow> string + Properties" where
  "ParseProps props =
     (case ValidateProps props of
        Inl e \<Rightarrow> Inl e
      | Inr _ \<Rightarrow>
          Inr (props\<lparr>prop_list :=
                 map (\<lambda>p. if readonly p = None then p\<lparr>readonly := Some True\<rparr> else p)
                     (prop_list props)\<rparr>))"

section \<open>CodeWriter\<close>

text \<open>
  Modelled from the spec: \<^verbatim>\<open>CodeWriter\<close> (\<^verbatim>\<open>CodeWriter.h\<close> and its implementation are not
  among the sources). It is an indentation-tracking text accumulator: \<^verbatim>\<open>Write\<close> appends
  the formatted text at the current indentation, \<^verbatim>\<open>Indent\<close> and \<^verbatim>\<open>Dedent\<close> adjust a level
  counter that is clamped at zero, \<^verbatim>\<open>Code\<close> returns the accumulated text. The indentation
  is written in front of the first character of every line that is not empty. The
  arguments of a format are substituted before \<open>Write\<close> is applied, so \<open>Write\<close> takes the
  formatted text.
\<close>

record CodeWriter =
  indent_str :: string
  indent_level :: nat
  start_of_line :: bool
  code :: string

definition new_CodeWriter :: "string \<Rightarrow> CodeWriter" where
  "new_CodeWriter ind =
     \<lparr>indent_str = ind, indent_level = 0, start_of_line = True, code = []\<rparr>"

definition indentation :: "CodeWriter \<Rightarrow> string" where
  "indentation w = concat (replicate (indent_level w) (indent_str w))"

definition put_char :: "char \<Rightarrow> CodeWriter \<Rightarrow> CodeWriter" where
  "put_char ch w =
     (if ch = CHR 0x0A then w\<lparr>start_of_line := True, code := code w @ [ch]\<rparr>
      else if start_of_line w then
        w\<lparr>start_of_line := False, code := code w @ indentation w @ [ch]\<rparr>
      else w\<lparr>code := code w @ [ch]\<rparr>)"

definition Write :: "string \<Rightarrow> CodeWriter \<Rightarrow> CodeWriter" where
  "Write s w = fold put_char s w"

definition Indent :: "CodeWriter \<Rightarrow> CodeWriter" where
  "Indent w = w\<lparr>indent_level := indent_level w + 1\<rparr>"

definition Dedent :: "CodeWriter \<Rightarrow> CodeWriter" where
  "Dedent w = w\<lparr>indent_level := indent_level w - 1\<rparr>"

definition Code :: "CodeWriter \<Rightarrow> string" where
  "Code w = code w"

text \<open>A text without a line break.\<close>

definition plain :: "string \<Rightarrow> bool" where
  "plain s = (CHR 0x0A \<notin> set s)"

text \<open>A run of calls on one writer, in the order of the source.\<close>

definition seq :: "(CodeWriter \<Rightarrow> CodeWriter) list \<Rightarrow> CodeWriter \<Rightarrow> CodeWriter" where
  "seq fs w = fold (\<lambda>f v. f v) fs w"

text \<open>\<^verbatim>\<open>kGeneratedFileFooterComments\<close> is declared in \<^verbatim>\<open>Common.h\<close>, which is not among the
  sources; its text is the one that the expected outputs of \<^verbatim>\<open>tests/RustGenTest.cpp\<close>
  show.\<close>

definition kGeneratedFileFooterComments :: string where
  "kGeneratedFileFooterComments =
     (''// Generated by the sysprop generator. DO NOT EDIT!'' @ nl @ nl)"

definition kIndent :: string where
  "kIndent = ''    ''"

section \<open>CppGen.cpp\<close>

definition kCppHeaderIncludes :: string where
  "kCppHeaderIncludes =
     (''#include <cstdint>'' @ nl @ ''#include <optional>'' @ nl @ ''#include <string>'' @ nl) @
     (''#include <vector>'' @ nl @ nl)"

definition GetHeaderIncludeGuardName :: "Properties \<Rightarrow> string" where
  "GetHeaderIncludeGuardName props =
     ''SYSPROPGEN_'' @ regex_replace_dot (module props) ''_'' @ ''_H_''"

definition GetCppEnumName :: "Property \<Rightarrow> string" where
  "GetCppEnumName p = PropNameToIdentifier (name p) @ ''_values''"

text \<open>\<^verbatim>\<open>GetCppPropTypeName\<close>: \<open>None\<close> is the default branch of the switch,
  \<^verbatim>\<open>__builtin_unreachable()\<close>.\<close>

fun GetCppPropTypeName_of :: "Property \<Rightarrow> Type \<Rightarrow> string option" where
  "GetCppPropTypeName_of p Boolean = Some ''bool''"
| "GetCppPropTypeName_of p Integer = Some ''std::int32_t''"
| "GetCppPropTypeName_of p Long = Some ''std::int64_t''"
| "GetCppPropTypeName_of p Double = Some ''double''"
| "GetCppPropTypeName_of p String = Some ''std::string''"
| "GetCppPropTypeName_of p Enum = Some (GetCppEnumName p)"
| "GetCppPropTypeName_of p BooleanList = Some ''std::vector<bool>''"
| "GetCppPropTypeName_of p IntegerList = Some ''std::vector<std::int32_t>''"
| "GetCppPropTypeName_of p LongList = Some ''std::vector<std::int64_t>''"
| "GetCppPropTypeName_of p DoubleList = Some ''std::vector<double>''"
| "GetCppPropTypeName_of p StringList = Some ''std::vector<std::string>''"
| "GetCppPropTypeName_of p EnumList = Some (''std::vector<'' @ GetCppEnumName p @ ''>'')"
| "GetCppPropTypeName_of p _ = None"

definition GetCppPropTypeName :: "Property \<Rightarrow> string option" where
  "GetCppPropTypeName p = GetCppPropTypeName_of p (type p)"

definition GetCppNamespace :: "Properties \<Rightarrow> string" where
  "GetCppNamespace props = regex_replace_dot (module props) ''::''"

text \<open>The enum declaration of \<^verbatim>\<open>GenerateHeader\<close> (lines 292 to 301).\<close>

definition WriteCppEnum :: "Property \<Rightarrow> CodeWriter \<Rightarrow> CodeWriter" where
  "WriteCppEnum p =
     seq ([Write (''enum class '' @ GetCppEnumName p @ '' {'' @ nl), Indent] @
          map (\<lambda>nm. Write (nm @ '','' @ nl)) (Split (enum_values p) ''|'') @
          [Dedent, Write (''};'' @ nl @ nl)])"

text \<open>The body of the loop of \<^verbatim>\<open>GenerateHeader\<close> for the property at index \<open>i\<close>.\<close>

definition GenerateHeader_prop :: "nat \<Rightarrow> Property \<Rightarrow> CodeWriter \<Rightarrow> CodeWriter option" where
  "GenerateHeader_prop i p w =
     (let w1 = (if i > 0 then Write nl w else w);
          prop_id = PropNameToIdentifier (name p)
      in case GetCppPropTypeName p of
           None \<Rightarrow> None
         | Some prop_type \<Rightarrow>
             Some (seq ((if type p = Enum \<or> type p = EnumList then [WriteCppEnum p] else []) @
                        [Write (''std::optional<'' @ prop_type @ ''> '' @ prop_id @ ''();'' @ nl)] @
                        (if \<not> get_readonly p
                         then [Write (''bool '' @ prop_id @ ''(const '' @ prop_type @
                                      (''& value);'' @ nl))]
                         else []))
                       w1))"

fun GenerateHeader_loop :: "nat \<Rightarrow> Property list \<Rightarrow> CodeWriter \<Rightarrow> CodeWriter option" where
  "GenerateHeader_loop i [] w = Some w"
| "GenerateHeader_loop i (p # ps) w =
     (case GenerateHeader_prop i p w of
        None \<Rightarrow> None
      | Some w' \<Rightarrow> GenerateHeader_loop (Suc i) ps w')"

text \<open>\<^verbatim>\<open>GenerateHeader(props, header_result, err)\<close>. The two strings that the caller
  passes by pointer are arguments and results: the model takes what they hold before the
  call and returns the returned flag with what they hold after it. \<open>None\<close>: the call
  reached \<^verbatim>\<open>__builtin_unreachable()\<close>.\<close>

definition GenerateHeader :: "Properties \<Rightarrow> string \<Rightarrow> string \<Rightarrow> (bool \<times> string \<times> string) option" where
  "GenerateHeader props header_result err =
     (let include_guard_name = GetHeaderIncludeGuardName props;
          cpp_namespace = GetCppNamespace props;
          w = seq [Write kGeneratedFileFooterComments,
                   Write (''#ifndef '' @ include_guard_name @ (nl @ ''#define '') @
                          include_guard_name @ nl @ nl),
                   Write kCppHeaderIncludes,
                   Write (''namespace '' @ cpp_namespace @ '' {'' @ nl @ nl)]
                  (new_CodeWriter kIndent)
      in case GenerateHeader_loop 0 (prop_list props) w of
           None \<Rightarrow> None
         | Some w' \<Rightarrow>
             Some (True,
                   Code (seq [Write ((nl @ ''}  // namespace '') @ cpp_namespace @
                                     (nl @ nl)),
                              Write (''#endif  // '' @ include_guard_name @ nl)]
                             w'),
                   err))"

text \<open>The local variable \<^verbatim>\<open>prefix\<close> of the accessor loops (lines 410 and 411 of
  \<^verbatim>\<open>CppGen.cpp\<close>, lines 481 and 482 of \<^verbatim>\<open>JavaGen.cpp\<close>).\<close>

definition accessor_prefix :: "Properties \<Rightarrow> Property \<Rightarrow> string" where
  "accessor_prefix props p =
     (let pre = (if get_readonly p then ''ro.'' else []) @ prefix props
      in if pre \<noteq> [] \<and> last pre \<noteq> CHR ''.'' then pre @ ''.'' else pre)"

text \<open>The body of the accessor loop of \<^verbatim>\<open>GenerateSource\<close> (lines 404 to 437) for the
  property at index \<open>i\<close>.\<close>

definition GenerateSource_prop ::
  "Properties \<Rightarrow> nat \<Rightarrow> Property \<Rightarrow> CodeWriter \<Rightarrow> CodeWriter option" where
  \<open>GenerateSource_prop props i p w =
     (let w1 = (if i > 0 then Write nl w else w);
          prop_id = PropNameToIdentifier (name p)
      in case GetCppPropTypeName p of
           None \<Rightarrow> None
         | Some prop_type \<Rightarrow>
             (let pre = accessor_prefix props p
              in Some (seq ([Write (''std::optional<'' @ prop_type @ ''> '' @ prop_id @
                                    (''() {'' @ nl)),
                             Indent,
                             Write (''return libc::GetProp<'' @ prop_type @ ''>("'' @ pre @
                                    name p @ ''");'' @ nl),
                             Dedent,
                             Write (''}'' @ nl)] @
                            (if \<not> get_readonly p
                             then [Write ((nl @ ''bool '') @ prop_id @ ''(const '' @ prop_type @
                                          (''& value) {'' @ nl)),
                                   Indent,
                                   Write (''return libc::system_property_set("'' @ pre @ name p @
                                          ''", '' @
                                          (if type p = String then ''value''
                                           else ''FormatValue(value)'') @
                                          (''.c_str()) == 0;'' @ nl)),
                                   Dedent,
                                   Write (''}'' @ nl)]
                             else []))
                           w1)))\<close>

fun GenerateSource_loop ::
  "Properties \<Rightarrow> nat \<Rightarrow> Property list \<Rightarrow> CodeWriter \<Rightarrow> CodeWriter option" where
  "GenerateSource_loop props i [] w = Some w"
| "GenerateSource_loop props i (p # ps) w =
     (case GenerateSource_prop props i p w of
        None \<Rightarrow> None
      | Some w' \<Rightarrow> GenerateSource_loop props (Suc i) ps w')"

section \<open>JavaGen.cpp\<close>

definition GetJavaEnumTypeName :: "Property \<Rightarrow> string" where
  "GetJavaEnumTypeName p = PropNameToIdentifier (name p) @ ''_values''"

text \<open>\<^verbatim>\<open>GetJavaTypeName\<close>: \<open>None\<close> is the default branch, \<^verbatim>\<open>__builtin_unreachable()\<close>.\<close>

fun GetJavaTypeName_of :: "Property \<Rightarrow> Type \<Rightarrow> string option" where
  "GetJavaTypeName_of p Boolean = Some ''Boolean''"
| "GetJavaTypeName_of p Integer = Some ''Integer''"
| "GetJavaTypeName_of p Long = Some ''Long''"
| "GetJavaTypeName_of p Double = Some ''Double''"
| "GetJavaTypeName_of p String = Some ''String''"
| "GetJavaTypeName_of p Enum = Some (GetJavaEnumTypeName p)"
| "GetJavaTypeName_of p BooleanList = Some ''List<Boolean>''"
| "GetJavaTypeName_of p IntegerList = Some ''List<Integer>''"
| "GetJavaTypeName_of p LongList = Some ''List<Long>''"
| "GetJavaTypeName_of p DoubleList = Some ''List<Double>''"
| "GetJavaTypeName_of p StringList = Some ''List<String>''"
| "GetJavaTypeName_of p EnumList = Some (''List<'' @ GetJavaEnumTypeName p @ ''>'')"
| "GetJavaTypeName_of p _ = None"

definition GetJavaTypeName :: "Property \<Rightarrow> string option" where
  "GetJavaTypeName p = GetJavaTypeName_of p (type p)"



text \<open>The body of the loop of \<^verbatim>\<open>GenerateJniLibrary\<close> that writes the native entry
  points (lines 478 to 505).\<close>

definition GenerateJniLibrary_prop :: "Properties \<Rightarrow> Property \<Rightarrow> CodeWriter \<Rightarrow> CodeWriter" where
  \<open>GenerateJniLibrary_prop props p =
     (let prop_id = PropNameToIdentifier (name p);
          pre = accessor_prefix props p
      in seq ([Write (''jstring JNICALL '' @ prop_id @ ''_get(JNIEnv* env, jclass) {'' @ nl),
               Indent,
               Write (''return libc::GetProp(env, "'' @ pre @ name p @ ''");'' @ nl),
               Dedent,
               Write (''}'' @ nl @ nl)] @
              (if \<not> get_readonly p
               then [Write (''jboolean JNICALL '' @ prop_id @ ''_set(JNIEnv* env, jclass, '' @
                            (''jstring str) {'' @ nl)),
                     Indent,
                     Write (''return libc::system_property_set("'' @ pre @ name p @
                            ''", ScopedUtfChars(env, '' @
                            (''str).c_str()) == 0 ? JNI_TRUE : JNI_FALSE;'' @ nl)),
                     Dedent,
                     Write (''}'' @ nl @ nl)]
               else [])))\<close>

section \<open>RustGen.cpp\<close>

text \<open>
  \<^verbatim>\<open>RustGen.cpp\<close> calls four naming functions that \<^verbatim>\<open>Common.h\<close> declares and whose
  definitions are not among the sources: \<^verbatim>\<open>ApiNameToIdentifier\<close>,
  \<^verbatim>\<open>SnakeCaseToCamelCase\<close>, \<^verbatim>\<open>CamelCaseToSnakeCase\<close> and \<^verbatim>\<open>ToUpper\<close>. They are parameters
  of the model: every function below takes them in a record, and every theorem holds for
  any choice of them.
\<close>

record Naming =
  ApiNameToIdentifier :: "string \<Rightarrow> string"
  SnakeCaseToCamelCase :: "string \<Rightarrow> string"
  CamelCaseToSnakeCase :: "string \<Rightarrow> string"
  ToUpper :: "string \<Rightarrow> string"

text \<open>Modelled from the spec: \<^verbatim>\<open>ParseEnumValues\<close> (declared in \<^verbatim>\<open>Common.h\<close>, not among the
  sources). The enum values are the pipe-delimited tokens of \<^verbatim>\<open>enum_values\<close>, in
  declaration order.\<close>

definition ParseEnumValues :: "string \<Rightarrow> string list" where
  "ParseEnumValues ev = Split ev ''|''"

text \<open>Modelled from the spec: the numbers of the scope tiers, which the schema
  declaration (not among the sources) assigns. The tiers are totally ordered,
  Public below System below Internal.\<close>

fun Scope_number :: "Scope \<Rightarrow> nat" where
  "Scope_number Public = 0"
| "Scope_number System = 1"
| "Scope_number Internal = 2"

text \<open>The numbers of the property types are assigned by the schema declaration as well.
  The source only compares them with 20 (\<^verbatim>\<open>prop.type() >= 20\<close>) to tell the list types
  from the others.\<close>

fun Type_number :: "Type \<Rightarrow> nat" where
  "Type_number Boolean = 0"
| "Type_number Integer = 1"
| "Type_number Long = 2"
| "Type_number Double = 3"
| "Type_number String = 4"
| "Type_number Enum = 5"
| "Type_number UInt = 6"
| "Type_number ULong = 7"
| "Type_number BooleanList = 20"
| "Type_number IntegerList = 21"
| "Type_number LongList = 22"
| "Type_number DoubleList = 23"
| "Type_number StringList = 24"
| "Type_number EnumList = 25"
| "Type_number UIntList = 26"
| "Type_number ULongList = 27"

definition kDocs :: string where
  "kDocs =
     (''//! Autogenerated system property accessors.'' @ nl @ ''//!'' @ nl) @
     (''//! This is an autogenerated module. The module contains methods for typed access to'' @ nl) @
     ''//! Android system properties.''"

definition kRustFileImports :: string where
  "kRustFileImports =
     (''use std::fmt;'' @ nl) @
     ''use rustutils::system_properties::{self, error::SysPropError, parsers_formatters};''"

definition kDeprecated :: string where
  "kDeprecated = ''#[deprecated]''"

definition GetRustEnumType :: "Naming \<Rightarrow> Property \<Rightarrow> string" where
  "GetRustEnumType N p =
     SnakeCaseToCamelCase N (ApiNameToIdentifier N (api_name p)) @ ''Values''"

text \<open>\<^verbatim>\<open>GetRustReturnType\<close>: the switch has a case for every one of the sixteen types, so
  its default branch is never taken.\<close>

fun GetRustReturnType_of :: "Naming \<Rightarrow> Property \<Rightarrow> Type \<Rightarrow> string option" where
  "GetRustReturnType_of N p Boolean = Some ''bool''"
| "GetRustReturnType_of N p Integer = Some ''i32''"
| "GetRustReturnType_of N p UInt = Some ''u32''"
| "GetRustReturnType_of N p Long = Some ''i64''"
| "GetRustReturnType_of N p ULong = Some ''u64''"
| "GetRustReturnType_of N p Double = Some ''f64''"
| "GetRustReturnType_of N p String = Some ''String''"
| "GetRustReturnType_of N p Enum = Some (GetRustEnumType N p)"
| "GetRustReturnType_of N p BooleanList = Some ''Vec<bool>''"
| "GetRustReturnType_of N p IntegerList = Some ''Vec<i32>''"
| "GetRustReturnType_of N p UIntList = Some ''Vec<u32>''"
| "GetRustReturnType_of N p LongList = Some ''Vec<i64>''"
| "GetRustReturnType_of N p ULongList = Some ''Vec<u64>''"
| "GetRustReturnType_of N p DoubleList = Some ''Vec<f64>''"
| "GetRustReturnType_of N p StringList = Some ''Vec<String>''"
| "GetRustReturnType_of N p EnumList = Some (''Vec<'' @ GetRustEnumType N p @ ''>'')"

definition GetRustReturnType :: "Naming \<Rightarrow> Property \<Rightarrow> string option" where
  "GetRustReturnType N p = GetRustReturnType_of N p (type p)"

fun GetRustAcceptType_of :: "Naming \<Rightarrow> Property \<Rightarrow> Type \<Rightarrow> string option" where
  "GetRustAcceptType_of N p Boolean = Some ''bool''"
| "GetRustAcceptType_of N p Integer = Some ''i32''"
| "GetRustAcceptType_of N p UInt = Some ''u32''"
| "GetRustAcceptType_of N p Long = Some ''i64''"
| "GetRustAcceptType_of N p ULong = Some ''u64''"
| "GetRustAcceptType_of N p Double = Some ''f64''"
| "GetRustAcceptType_of N p String = Some ''&str''"
| "GetRustAcceptType_of N p Enum = Some (GetRustEnumType N p)"
| "GetRustAcceptType_of N p BooleanList = Some ''&[bool]''"
| "GetRustAcceptType_of N p IntegerList = Some ''&[i32]''"
| "GetRustAcceptType_of N p UIntList = Some ''&[u32]''"
| "GetRustAcceptType_of N p LongList = Some ''&[i64]''"
| "GetRustAcceptType_of N p ULongList = Some ''&[u64]''"
| "GetRustAcceptType_of N p DoubleList = Some ''&[f64]''"
| "GetRustAcceptType_of N p StringList = Some ''&[String]''"
| "GetRustAcceptType_of N p EnumList = Some (''&['' @ GetRustEnumType N p @ '']'')"

definition GetRustAcceptType :: "Naming \<Rightarrow> Property \<Rightarrow> string option" where
  "GetRustAcceptType N p = GetRustAcceptType_of N p (type p)"

fun GetTypeParser_of :: "Type \<Rightarrow> string option" where
  "GetTypeParser_of Boolean = Some ''parsers_formatters::parse_bool''"
| "GetTypeParser_of Integer = Some ''parsers_formatters::parse''"
| "GetTypeParser_of UInt = Some ''parsers_formatters::parse''"
| "GetTypeParser_of Long = Some ''parsers_formatters::parse''"
| "GetTypeParser_of ULong = Some ''parsers_formatters::parse''"
| "GetTypeParser_of Double = Some ''parsers_formatters::parse''"
| "GetTypeParser_of String = Some ''parsers_formatters::parse''"
| "GetTypeParser_of Enum = Some ''parsers_formatters::parse''"
| "GetTypeParser_of BooleanList = Some ''parsers_formatters::parse_bool_list''"
| "GetTypeParser_of IntegerList = Some ''parsers_formatters::parse_list''"
| "GetTypeParser_of UIntList = Some ''parsers_formatters::parse_list''"
| "GetTypeParser_of LongList = Some ''parsers_formatters::parse_list''"
| "GetTypeParser_of ULongList = Some ''parsers_formatters::parse_list''"
| "GetTypeParser_of DoubleList = Some ''parsers_formatters::parse_list''"
| "GetTypeParser_of StringList = Some ''parsers_formatters::parse_list''"
| "GetTypeParser_of EnumList = Some ''parsers_formatters::parse_list''"

definition GetTypeParser :: "Property \<Rightarrow> string option" where
  "GetTypeParser p = GetTypeParser_of (type p)"

fun GetTypeFormatter_of :: "Property \<Rightarrow> Type \<Rightarrow> string option" where
  "GetTypeFormatter_of p Boolean =
     Some (if integer_as_bool p then ''parsers_formatters::format_bool_as_int''
           else ''parsers_formatters::format_bool'')"
| "GetTypeFormatter_of p String = Some ''parsers_formatters::format''"
| "GetTypeFormatter_of p Integer = Some ''parsers_formatters::format''"
| "GetTypeFormatter_of p UInt = Some ''parsers_formatters::format''"
| "GetTypeFormatter_of p Long = Some ''parsers_formatters::format''"
| "GetTypeFormatter_of p ULong = Some ''parsers_formatters::format''"
| "GetTypeFormatter_of p Double = Some ''parsers_formatters::format''"
| "GetTypeFormatter_of p Enum = Some ''parsers_formatters::format''"
| "GetTypeFormatter_of p BooleanList =
     Some (if integer_as_bool p then ''parsers_formatters::format_bool_list_as_int''
           else ''parsers_formatters::format_bool_list'')"
| "GetTypeFormatter_of p IntegerList = Some ''parsers_formatters::format_list''"
| "GetTypeFormatter_of p UIntList = Some ''parsers_formatters::format_list''"
| "GetTypeFormatter_of p LongList = Some ''parsers_formatters::format_list''"
| "GetTypeFormatter_of p ULongList = Some ''parsers_formatters::format_list''"
| "GetTypeFormatter_of p DoubleList = Some ''parsers_formatters::format_list''"
| "GetTypeFormatter_of p StringList = Some ''parsers_formatters::format_list''"
| "GetTypeFormatter_of p EnumList = Some ''parsers_formatters::format_list''"

definition GetTypeFormatter :: "Property \<Rightarrow> string option" where
  "GetTypeFormatter p = GetTypeFormatter_of p (type p)"

text \<open>The enum declaration (lines 214 to 224).\<close>

definition WriteRustEnumDecl :: "Naming \<Rightarrow> Property \<Rightarrow> CodeWriter \<Rightarrow> CodeWriter" where
  \<open>WriteRustEnumDecl N p =
     (let enum_type = GetRustEnumType N p;
          vals = ParseEnumValues (enum_values p)
      in seq ([Write (''#[allow(missing_docs)]'' @ nl),
               Write (''#[derive(Copy, Clone, Debug, Eq, '' @
                      (''PartialEq, PartialOrd, Hash, Ord)]'' @ nl)),
               Write (''pub enum '' @ enum_type @ '' {'' @ nl),
               Indent] @
              map (\<lambda>v. Write (SnakeCaseToCamelCase N v @ '','' @ nl)) vals @
              [Dedent,
               Write (''}'' @ nl @ nl)]))\<close>

text \<open>The parser of the enum (lines 226 to 246).\<close>

definition WriteRustEnumParser :: "Naming \<Rightarrow> Property \<Rightarrow> CodeWriter \<Rightarrow> CodeWriter" where
  \<open>WriteRustEnumParser N p =
     (let enum_type = GetRustEnumType N p;
          vals = ParseEnumValues (enum_values p)
      in seq ([Write (''impl std::str::FromStr for '' @ enum_type @ '' {'' @ nl),
               Indent,
               Write (''type Err = String;'' @ nl @ nl),
               Write (''fn from_str(s: &str) -> std::result::Result<Self, Self::Err> {'' @ nl),
               Indent,
               Write (''match s {'' @ nl),
               Indent] @
              map (\<lambda>v. Write (''"'' @ v @ ''" => Ok('' @ enum_type @ ''::'' @
                                SnakeCaseToCamelCase N v @ ''),'' @ nl)) vals @
              [Write (''_ => Err(format!("'' @ (CHR 0x27 # ''{}' cannot be parsed for '') @
                      enum_type @ ''", s)),'' @ nl),
               Dedent,
               Write (''}'' @ nl),
               Dedent,
               Write (''}'' @ nl),
               Dedent,
               Write (''}'' @ nl @ nl)]))\<close>

text \<open>The formatter of the enum (lines 248 to 265).\<close>

definition WriteRustEnumFormatter :: "Naming \<Rightarrow> Property \<Rightarrow> CodeWriter \<Rightarrow> CodeWriter" where
  \<open>WriteRustEnumFormatter N p =
     (let enum_type = GetRustEnumType N p;
          vals = ParseEnumValues (enum_values p)
      in seq ([Write (''impl fmt::Display for '' @ enum_type @ '' {'' @ nl),
               Indent,
               Write (''fn fmt(&self, f: &mut fmt::Formatter<'_>) -> fmt::Result {'' @ nl),
               Indent,
               Write (''match self {'' @ nl),
               Indent] @
              map (\<lambda>v. Write (enum_type @ ''::'' @ SnakeCaseToCamelCase N v @
                                '' => write!(f, "'' @ v @ ''"),'' @ nl)) vals @
              [Dedent,
               Write (''}'' @ nl),
               Dedent,
               Write (''}'' @ nl),
               Dedent,
               Write (''}'' @ nl @ nl)]))\<close>

text \<open>The enum block of the loop (lines 210 to 266).\<close>

definition WriteRustEnum :: "Naming \<Rightarrow> Property \<Rightarrow> CodeWriter \<Rightarrow> CodeWriter" where
  "WriteRustEnum N p =
     seq [WriteRustEnumDecl N p, WriteRustEnumParser N p, WriteRustEnumFormatter N p]"

text \<open>One arm block of the generated getter: the three arms of the match on a read.\<close>

definition WriteRustMatchArms :: "string \<Rightarrow> (CodeWriter \<Rightarrow> CodeWriter) list" where
  \<open>WriteRustMatchArms parser =
     [Indent,
      Write (''Err(e) => Err(SysPropError::FetchError(e)),'' @ nl),
      Write (''Ok(Some(val)) => '' @ parser @
             (''(val.as_str()).map_err(SysPropError::ParseError).map(Some),'' @ nl)),
      Write (''Ok(None) => Ok(None),'' @ nl),
      Dedent]\<close>

text \<open>The getter (lines 268 to 315).\<close>

definition WriteRustGetter ::
  "Property \<Rightarrow> string \<Rightarrow> string \<Rightarrow> string \<Rightarrow> string \<Rightarrow> CodeWriter \<Rightarrow> CodeWriter" where
  \<open>WriteRustGetter p prop_id prop_const prop_return_type parser =
     (let identifier = (if prop_id = ''type'' then ''r#'' @ prop_id else prop_id)
      in seq ([Write (''/// Returns the value of the property '' @
                      (CHR 0x27 # prop_name p) @ ''' if set.'' @ nl)] @
              (if deprecated p then [Write (kDeprecated @ nl)] else []) @
              [Write (''pub fn '' @ identifier @ ''() -> std::result::Result<Option<'' @
                      prop_return_type @ ''>, SysPropError> {'' @ nl),
               Indent,
               Write (''let result = match system_properties::read('' @ prop_const @
                      ('') {'' @ nl))] @
              WriteRustMatchArms parser @
              [Write (''};'' @ nl)] @
              (if legacy_prop_name p \<noteq> [] then
                 [Write (''if result.is_ok() { return result; }'' @ nl),
                  Write (''log::debug!("Failed to fetch the original property '' @
                         (CHR 0x27 # prop_name p) @ ''' ('{}'), '' @
                         ''falling back to the legacy one '' @
                         (CHR 0x27 # legacy_prop_name p) @
                         ('''.", result.unwrap_err());'' @ nl)),
                  Write (''match system_properties::read("'' @ legacy_prop_name p @
                         (''") {'' @ nl))] @
                 WriteRustMatchArms parser @
                 [Write (''}'' @ nl)]
               else [Write (''result'' @ nl)]) @
              [Dedent,
               Write (''}'' @ nl @ nl)]))\<close>

text \<open>The setter (lines 319 to 344).\<close>

definition WriteRustSetter ::
  "Property \<Rightarrow> string \<Rightarrow> string \<Rightarrow> string \<Rightarrow> string \<Rightarrow> CodeWriter \<Rightarrow> CodeWriter" where
  \<open>WriteRustSetter p prop_id prop_const prop_accept_type formatter =
     seq ([Write (''/// Sets the value of the property '' @ (CHR 0x27 # prop_name p) @
                  (CHR 0x27 # ('', returns 'Ok' if successful.'' @ nl)))] @
          (if deprecated p then [Write (kDeprecated @ nl)] else []) @
          [Write (''pub fn set_'' @ prop_id @ ''(v: '' @ prop_accept_type @
                  ('') -> std::result::Result<(), SysPropError> {'' @ nl)),
           Indent] @
          (if type p = String then
             [Write (''system_properties::write('' @ prop_const @ '', '' @ ''v'' @
                     ('').map_err(SysPropError::SetError)'' @ nl))]
           else
             [Write (''let value = '' @ formatter @ ''('' @
                     (if Type_number (type p) \<ge> 20 then ''v'' else ''&v'') @ '');'' @ nl),
              Write (''system_properties::write('' @ prop_const @ '', '' @ ''value.as_str()'' @
                     ('').map_err(SysPropError::SetError)'' @ nl))]) @
          [Dedent,
           Write (''}'' @ nl @ nl)])\<close>

text \<open>The body of the loop of \<^verbatim>\<open>GenerateRustSource\<close> for one property; \<open>sc\<close> is the
  scope the artifact is generated for. \<open>None\<close>: a type-mapping function reached the
  default branch of its switch, \<^verbatim>\<open>__builtin_unreachable()\<close>.\<close>

definition GenerateRustSource_prop ::
  "Naming \<Rightarrow> Scope \<Rightarrow> Property \<Rightarrow> CodeWriter \<Rightarrow> CodeWriter option" where
  \<open>GenerateRustSource_prop N sc p w =
     (if Scope_number (scope p) > Scope_number sc then Some w
      else
        let prop_id = CamelCaseToSnakeCase N (ApiNameToIdentifier N (api_name p));
            prop_const = ToUpper N prop_id @ ''_PROP'';
            w1 = seq ([Write (''/// The property name of the "'' @ prop_id @ ''" API.'' @ nl),
                       Write (''pub const '' @ prop_const @ '': &str = "'' @ prop_name p @
                              ''";'' @ nl @ nl)] @
                      (if type p = Enum \<or> type p = EnumList then [WriteRustEnum N p] else []))
                     w
        in case (GetRustReturnType N p, GetTypeParser p) of
             (Some prop_return_type, Some parser) \<Rightarrow>
               (let w2 = WriteRustGetter p prop_id prop_const prop_return_type parser w1
                in if access p = Readonly then Some w2
                   else
                     case (GetRustAcceptType N p, GetTypeFormatter p) of
                       (Some prop_accept_type, Some formatter) \<Rightarrow>
                         Some (WriteRustSetter p prop_id prop_const prop_accept_type formatter
                                 w2)
                     | _ \<Rightarrow> None)
           | _ \<Rightarrow> None)\<close>

fun GenerateRustSource_loop ::
  "Naming \<Rightarrow> Scope \<Rightarrow> Property list \<Rightarrow> CodeWriter \<Rightarrow> CodeWriter option" where
  "GenerateRustSource_loop N sc [] w = Some w"
| "GenerateRustSource_loop N sc (p # ps) w =
     (case GenerateRustSource_prop N sc p w of
        None \<Rightarrow> None
      | Some w' \<Rightarrow> GenerateRustSource_loop N sc ps w')"

definition GenerateRustSource :: "Naming \<Rightarrow> Properties \<Rightarrow> Scope \<Rightarrow> string option" where
  "GenerateRustSource N props sc =
     map_option Code
       (GenerateRustSource_loop N sc (prop_list props)
          (seq [Write (kDocs @ nl @ nl),
                Write kGeneratedFileFooterComments,
                Write (kRustFileImports @ nl @ nl)]
               (new_CodeWriter kIndent)))"

section \<open>The text of a Rust artifact, property by property\<close>

text \<open>A function on writers that only appends to the text, and whose effect does not
  depend on the text written so far.\<close>

definition appends_to_code :: "(CodeWriter \<Rightarrow> CodeWriter) \<Rightarrow> bool" where
  "appends_to_code f =
     (\<forall>w c. f (w\<lparr>code := c\<rparr>) = (f (w\<lparr>code := []\<rparr>))\<lparr>code := c @ code (f (w\<lparr>code := []\<rparr>))\<rparr>)"

text \<open>The text that \<^verbatim>\<open>GenerateRustSource\<close> writes in front of the loop.\<close>

definition rust_preamble :: string where
  "rust_preamble =
     Code (seq [Write (kDocs @ nl @ nl),
                Write kGeneratedFileFooterComments,
                Write (kRustFileImports @ nl @ nl)]
               (new_CodeWriter kIndent))"

text \<open>The text that the body of the loop of \<^verbatim>\<open>GenerateRustSource\<close> writes for the property
  \<open>p\<close> when the artifact is generated for the scope \<open>sc\<close>: the text the body leaves in a
  new writer. It is empty when the body writes nothing.\<close>

definition rust_block :: "Naming \<Rightarrow> Scope \<Rightarrow> Property \<Rightarrow> string" where
  "rust_block N sc p =
     (case GenerateRustSource_prop N sc p (new_CodeWriter kIndent) of
        None \<Rightarrow> []
      | Some w \<Rightarrow> Code w)"

section \<open>The generated Rust getter\<close>

text \<open>
  The text that \<^verbatim>\<open>GenerateRustSource\<close> writes for a property is a sequence of Rust items:
  a constant with the key of the property, and a getter function, whose body is
  \<^verbatim>\<open>
  let result = match system_properties::read(PROP) {
      Err(e) => Err(SysPropError::FetchError(e)),
      Ok(Some(val)) => PARSER(val.as_str()).map_err(SysPropError::ParseError).map(Some),
      Ok(None) => Ok(None),
  };
  \<close>
  followed, when the property has a legacy name, by
  \<^verbatim>\<open>
  if result.is_ok() { return result; }
  log::debug!("...", result.unwrap_err());
  match system_properties::read("LEGACY") { the same three arms }
  \<close>
  and by the expression \<^verbatim>\<open>result\<close> otherwise. The items and statements of this fragment
  of Rust are data; \<open>write_item\<close> is their concrete syntax, written with the calls of the
  writer, and \<open>call_fn\<close> is their meaning.
\<close>

text \<open>The argument of a read: a constant of the module, or a string literal.\<close>

datatype rust_key = ConstRef string | StrLit string

text \<open>The statements of a getter. The two fields of a read are the key and the path of
  the parser; the field of the log statement is its format string.\<close>

datatype rust_stmt =
    LetResultRead rust_key string
  | ReturnResultIfOk
  | LogDebugUnwrapErr string
  | MatchRead rust_key string
  | ResultExpr

text \<open>A constant with its name and its value, and a function without parameters with
  its name, the type of the value it returns, and its body.\<close>

datatype rust_item = ConstItem string string | FnItem string string "rust_stmt list"

fun render_key :: "rust_key \<Rightarrow> string" where
  \<open>render_key (ConstRef c) = c\<close>
| \<open>render_key (StrLit s) = ''"'' @ s @ ''"''\<close>

fun write_stmt :: "rust_stmt \<Rightarrow> CodeWriter \<Rightarrow> CodeWriter" where
  \<open>write_stmt (LetResultRead k parser) =
     seq ([Write (''let result = match system_properties::read('' @ render_key k @
                  '') {'' @ nl)] @
          WriteRustMatchArms parser @
          [Write (''};'' @ nl)])\<close>
| \<open>write_stmt ReturnResultIfOk = Write (''if result.is_ok() { return result; }'' @ nl)\<close>
| \<open>write_stmt (LogDebugUnwrapErr fmt) =
     Write (''log::debug!("'' @ fmt @ ''", result.unwrap_err());'' @ nl)\<close>
| \<open>write_stmt (MatchRead k parser) =
     seq ([Write (''match system_properties::read('' @ render_key k @ '') {'' @ nl)] @
          WriteRustMatchArms parser @
          [Write (''}'' @ nl)])\<close>
| \<open>write_stmt ResultExpr = Write (''result'' @ nl)\<close>

fun write_item :: "rust_item \<Rightarrow> CodeWriter \<Rightarrow> CodeWriter" where
  \<open>write_item (ConstItem c v) =
     Write (''pub const '' @ c @ '': &str = "'' @ v @ ''";'' @ nl @ nl)\<close>
| \<open>write_item (FnItem f ret body) =
     seq ([Write (''pub fn '' @ f @ ''() -> std::result::Result<Option<'' @ ret @
                  ''>, SysPropError> {'' @ nl),
           Indent] @
          map write_stmt body @
          [Dedent,
           Write (''}'' @ nl @ nl)])\<close>

text \<open>The text of an item at the top level of a file.\<close>

definition item_text :: "rust_item \<Rightarrow> string" where
  "item_text it = Code (write_item it (new_CodeWriter kIndent))"

text \<open>The items that the loop of \<^verbatim>\<open>GenerateRustSource\<close> writes for a property (lines 203
  to 206 and 268 to 315): the constant, and the getter with its documentation.
  \<open>rust_prop_id\<close> and \<open>rust_prop_const\<close> are the local variables \<^verbatim>\<open>prop_id\<close> and
  \<^verbatim>\<open>prop_const\<close> of the loop (lines 199 to 202).\<close>

definition rust_prop_id :: "Naming \<Rightarrow> Property \<Rightarrow> string" where
  "rust_prop_id N p = CamelCaseToSnakeCase N (ApiNameToIdentifier N (api_name p))"

definition rust_prop_const :: "Naming \<Rightarrow> Property \<Rightarrow> string" where
  "rust_prop_const N p = ToUpper N (rust_prop_id N p) @ ''_PROP''"

definition rust_const :: "Property \<Rightarrow> string \<Rightarrow> rust_item" where
  "rust_const p prop_const = ConstItem prop_const (prop_name p)"

definition rust_getter_body :: "Property \<Rightarrow> string \<Rightarrow> string \<Rightarrow> rust_stmt list" where
  "rust_getter_body p prop_const parser =
     LetResultRead (ConstRef prop_const) parser #
     (if legacy_prop_name p \<noteq> [] then
        [ReturnResultIfOk,
         LogDebugUnwrapErr
           (''Failed to fetch the original property '' @ (CHR 0x27 # prop_name p) @
            ''' ('{}'), falling back to the legacy one '' @
            (CHR 0x27 # legacy_prop_name p) @ '''.''),
         MatchRead (StrLit (legacy_prop_name p)) parser]
      else [ResultExpr])"

definition rust_getter_name :: "string \<Rightarrow> string" where
  "rust_getter_name prop_id = (if prop_id = ''type'' then ''r#'' @ prop_id else prop_id)"

definition rust_getter :: "Property \<Rightarrow> string \<Rightarrow> string \<Rightarrow> string \<Rightarrow> string \<Rightarrow> rust_item" where
  "rust_getter p prop_id prop_const prop_return_type parser =
     FnItem (rust_getter_name prop_id) prop_return_type (rust_getter_body p prop_const parser)"

definition rust_getter_docs :: "Property \<Rightarrow> CodeWriter \<Rightarrow> CodeWriter" where
  "rust_getter_docs p =
     seq ([Write (''/// Returns the value of the property '' @
                  (CHR 0x27 # prop_name p) @ ''' if set.'' @ nl)] @
          (if deprecated p then [Write (kDeprecated @ nl)] else []))"

text \<open>
  The meaning of the fragment. The property store is a function from a key to the
  outcome of \<^verbatim>\<open>system_properties::read\<close>: a fetch error, or the value if the key is set.
  A parser is a function from a value to a parse error or a parsed value, and the paths
  of the parsers are interpreted by a function. A \<^verbatim>\<open>match\<close> on a read with the three arms
  of the template is \<open>read_and_parse\<close>.
\<close>

datatype ('e, 'pe) SysPropError = FetchError 'e | SetError 'e | ParseError 'pe

type_synonym ('e, 'pe, 'v) getter_result = "('e, 'pe) SysPropError + 'v option"

definition read_and_parse ::
  "(string \<Rightarrow> 'e + string option) \<Rightarrow> (string \<Rightarrow> 'pe + 'v) \<Rightarrow> string \<Rightarrow> ('e, 'pe, 'v) getter_result" where
  "read_and_parse read parser key =
     (case read key of
        Inl e \<Rightarrow> Inl (FetchError e)
      | Inr (Some val) \<Rightarrow>
          (case parser val of
             Inl pe \<Rightarrow> Inl (ParseError pe)
           | Inr v \<Rightarrow> Inr (Some v))
      | Inr None \<Rightarrow> Inr None)"

definition is_ok :: "'a + 'b \<Rightarrow> bool" where
  "is_ok r = (case r of Inl _ \<Rightarrow> False | Inr _ \<Rightarrow> True)"

text \<open>The key that the argument of a read denotes, given the constants of the module.\<close>

fun key_value :: "(string \<times> string) list \<Rightarrow> rust_key \<Rightarrow> string option" where
  "key_value consts (ConstRef c) = map_of consts c"
| "key_value consts (StrLit s) = Some s"

text \<open>
  The run of a function body: \<open>result\<close> is the value of the variable of that name, if it
  is bound, and \<open>keys\<close> are the keys read so far. The run returns the value of the function
  and the keys it read, in the order of the reads. \<open>None\<close>: the body has no value (a
  constant or the variable is not bound, an expression is followed by more statements,
  there is no final expression), or it panics (\<^verbatim>\<open>unwrap_err\<close> of a result that is ok).
\<close>

fun exec_stmts ::
  "(string \<times> string) list \<Rightarrow> (string \<Rightarrow> 'e + string option) \<Rightarrow>
   (string \<Rightarrow> string \<Rightarrow> 'pe + 'v) \<Rightarrow> rust_stmt list \<Rightarrow>
   ('e, 'pe, 'v) getter_result option \<Rightarrow> string list \<Rightarrow>
   (('e, 'pe, 'v) getter_result \<times> string list) option" where
  "exec_stmts consts read parsers [] result keys = None"
| "exec_stmts consts read parsers (LetResultRead k parser # ss) result keys =
     (case key_value consts k of
        None \<Rightarrow> None
      | Some key \<Rightarrow>
          exec_stmts consts read parsers ss
            (Some (read_and_parse read (parsers parser) key)) (keys @ [key]))"
| "exec_stmts consts read parsers (ReturnResultIfOk # ss) result keys =
     (case result of
        None \<Rightarrow> None
      | Some r \<Rightarrow> if is_ok r then Some (r, keys)
                  else exec_stmts consts read parsers ss result keys)"
| "exec_stmts consts read parsers (LogDebugUnwrapErr fmt # ss) result keys =
     (case result of
        None \<Rightarrow> None
      | Some r \<Rightarrow> if is_ok r then None
                  else exec_stmts consts read parsers ss result keys)"
| "exec_stmts consts read parsers (MatchRead k parser # ss) result keys =
     (if ss \<noteq> [] then None
      else case key_value consts k of
             None \<Rightarrow> None
           | Some key \<Rightarrow> Some (read_and_parse read (parsers parser) key, keys @ [key]))"
| "exec_stmts consts read parsers (ResultExpr # ss) result keys =
     (if ss \<noteq> [] then None else map_option (\<lambda>r. (r, keys)) result)"

text \<open>The constants of a list of items, and the body of the function of a name.\<close>

fun item_consts :: "rust_item list \<Rightarrow> (string \<times> string) list" where
  "item_consts [] = []"
| "item_consts (ConstItem c v # its) = (c, v) # item_consts its"
| "item_consts (FnItem f ret body # its) = item_consts its"

fun item_fn :: "string \<Rightarrow> rust_item list \<Rightarrow> rust_stmt list option" where
  "item_fn f [] = None"
| "item_fn f (ConstItem c v # its) = item_fn f its"
| "item_fn f (FnItem g ret body # its) = (if g = f then Some body else item_fn f its)"

text \<open>A call of the function \<open>f\<close> of a list of items.\<close>

definition call_fn ::
  "rust_item list \<Rightarrow> string \<Rightarrow> (string \<Rightarrow> 'e + string option) \<Rightarrow>
   (string \<Rightarrow> string \<Rightarrow> 'pe + 'v) \<Rightarrow>
   (('e, 'pe, 'v) getter_result \<times> string list) option" where
  "call_fn items f read parsers =
     (case item_fn f items of
        None \<Rightarrow> None
      | Some body \<Rightarrow> exec_stmts (item_consts items) read parsers body None [])"

section \<open>The schemas of the test suite\<close>

text \<open>A property message with every field unset.\<close>

definition unset_Property :: Property where
  "unset_Property =
     \<lparr>name = [], type = Boolean, scope = Public, readonly = None, enum_values = [],
      api_name = [], prop_name = [], access = Readonly, deprecated = False,
      legacy_prop_name = [], integer_as_bool = False\<rparr>"

definition kDuplicatedField :: Properties where
  "kDuplicatedField =
     \<lparr>owner = Vendor, module = ''com.error.DuplicatedField'', prefix = ''com.error'',
      prop_list = [unset_Property\<lparr>name := ''dup'', type := Integer, scope := Internal\<rparr>,
              unset_Property\<lparr>name := ''dup'', type := Long, scope := Public\<rparr>]\<rparr>"

definition kEmptyProp :: Properties where
  "kEmptyProp =
     \<lparr>owner = Vendor, module = ''com.google.EmptyProp'', prefix = [], prop_list = []\<rparr>"

definition kInvalidPropName :: Properties where
  "kInvalidPropName =
     \<lparr>owner = Odm, module = ''odm.invalid.prop.name'', prefix = ''invalid'',
      prop_list = [unset_Property\<lparr>name := ''!@#$'', type := Integer, scope := System\<rparr>]\<rparr>"

definition kEmptyEnumValues :: Properties where
  "kEmptyEnumValues =
     \<lparr>owner = Odm, module = ''test.manufacturer'', prefix = ''test'',
      prop_list = [unset_Property\<lparr>name := ''empty_enum_value'', type := Enum,
                             scope := Internal\<rparr>]\<rparr>"

text \<open>The schema \<open>kEmptyEnumValues\<close> with a property name that begins with a digit.\<close>

definition kEmptyEnumValuesBadName :: Properties where
  "kEmptyEnumValuesBadName =
     \<lparr>owner = Odm, module = ''test.manufacturer'', prefix = ''test'',
      prop_list = [unset_Property\<lparr>name := ''1st.mode'', type := Enum,
                             scope := Internal\<rparr>]\<rparr>"

definition kDuplicatedEnumValue :: Properties where
  "kDuplicatedEnumValue =
     \<lparr>owner = Vendor, module = ''vendor.module.name'', prefix = [],
      prop_list = [unset_Property\<lparr>name := ''status'', type := Enum,
                             enum_values := ''on|off|intermediate|on'',
                             scope := Public\<rparr>]\<rparr>"

definition kInvalidModuleName :: Properties where
  "kInvalidModuleName =
     \<lparr>owner = Platform, module = [], prefix = [],
      prop_list = [unset_Property\<lparr>name := ''integer'', type := Integer, scope := Public\<rparr>]\<rparr>"

definition kInvalidNamespaceForPlatform :: Properties where
  "kInvalidNamespaceForPlatform =
     \<lparr>owner = Platform, module = ''android.os.PlatformProperties'',
      prefix = ''vendor.buildprop'',
      prop_list = [unset_Property\<lparr>name := ''utclong'', type := Long, scope := System\<rparr>]\<rparr>"

definition kFlattenedCollision :: Properties where
  "kFlattenedCollision =
     \<lparr>owner = Vendor, module = ''com.error.Collision'', prefix = [],
      prop_list = [unset_Property\<lparr>name := ''a.b'', type := Integer, scope := Public\<rparr>,
                   unset_Property\<lparr>name := ''a_b'', type := Long, scope := Public\<rparr>]\<rparr>"

definition kInvalidNameAndDuplicate :: Properties where
  "kInvalidNameAndDuplicate =
     \<lparr>owner = Vendor, module = ''com.error.DuplicatedField'', prefix = ''com.error'',
      prop_list = [unset_Property\<lparr>name := ''dup'', type := Integer, scope := Internal\<rparr>,
                   unset_Property\<lparr>name := ''dup'', type := Long, scope := Public\<rparr>,
                   unset_Property\<lparr>name := ''!@#$'', type := Integer, scope := System\<rparr>]\<rparr>"

definition kDuplicateAndWrongModule :: Properties where
  "kDuplicateAndWrongModule =
     \<lparr>owner = Platform, module = ''com.error.DuplicatedField'', prefix = ''com.error'',
      prop_list = [unset_Property\<lparr>name := ''dup'', type := Integer, scope := Internal\<rparr>,
                   unset_Property\<lparr>name := ''dup'', type := Long, scope := Public\<rparr>]\<rparr>"

text \<open>A schema of the platform whose prefix is the bare word \<open>vendor\<close>.\<close>

definition kVendorPrefixForPlatform :: Properties where
  "kVendorPrefixForPlatform =
     \<lparr>owner = Platform, module = ''android.os.PlatformProperties'', prefix = ''vendor'',
      prop_list = [unset_Property\<lparr>name := ''foo'', type := Integer, scope := Public,
                                  readonly := Some False\<rparr>]\<rparr>"

text \<open>A well-formed schema with a prefix and a property that leaves \<open>readonly\<close> unset,
  and the schema that \<open>ParseProps\<close> returns for it.\<close>

definition kSpeed :: Property where
  "kSpeed = unset_Property\<lparr>name := ''speed'', type := Integer, scope := Public\<rparr>"

definition kPrefixedSchema :: Properties where
  "kPrefixedSchema =
     \<lparr>owner = Vendor, module = ''com.vendor.Props'', prefix = ''com.vendor'',
      prop_list = [kSpeed]\<rparr>"

definition kPrefixedSchema_parsed :: Properties where
  "kPrefixedSchema_parsed =
     \<lparr>owner = Vendor, module = ''com.vendor.Props'', prefix = ''com.vendor'',
      prop_list = [kSpeed\<lparr>readonly := Some True\<rparr>]\<rparr>"

text \<open>The header that \<^verbatim>\<open>GenerateHeader\<close> writes for \<open>kPrefixedSchema_parsed\<close>.\<close>

definition kPrefixedSchema_header :: string where
  "kPrefixedSchema_header =
     ''// Generated by the sysprop generator. DO NOT EDIT!'' @ nl @ nl @
     ''#ifndef SYSPROPGEN_com_vendor_Props_H_'' @ nl @
     ''#define SYSPROPGEN_com_vendor_Props_H_'' @ nl @ nl @
     ''#include <cstdint>'' @ nl @
     ''#include <optional>'' @ nl @
     ''#include <string>'' @ nl @
     ''#include <vector>'' @ nl @ nl @
     ''namespace com::vendor::Props {'' @ nl @ nl @
     ''std::optional<std::int32_t> speed();'' @ nl @ nl @
     ''}  // namespace com::vendor::Props'' @ nl @ nl @
     ''#endif  // SYSPROPGEN_com_vendor_Props_H_'' @ nl"

text \<open>A well-formed schema with an enum property and an unsigned property.\<close>

definition kStatus :: Property where
  "kStatus =
     unset_Property\<lparr>name := ''status'', api_name := ''status'', prop_name := ''vendor.status'',
                    type := Enum, enum_values := ''on|off'', scope := System,
                    readonly := Some False, access := ReadWrite,
                    legacy_prop_name := ''vendor.old_status''\<rparr>"

definition kCount :: Property where
  "kCount =
     unset_Property\<lparr>name := ''count'', api_name := ''count'', prop_name := ''vendor.count'',
                    type := UInt, scope := Public, readonly := Some True\<rparr>"

definition kEnumSchema :: Properties where
  "kEnumSchema =
     \<lparr>owner = Vendor, module = ''com.vendor.Status'', prefix = [], prop_list = [kStatus]\<rparr>"

definition kUnsignedSchema :: Properties where
  "kUnsignedSchema =
     \<lparr>owner = Vendor, module = ''com.vendor.Count'', prefix = [], prop_list = [kCount]\<rparr>"

text \<open>A schema with a property of the \<open>System\<close> tier and a property of the \<open>Public\<close>
  tier, and a naming that leaves every identifier as it is.\<close>

definition kTieredSchema :: Properties where
  "kTieredSchema =
     \<lparr>owner = Vendor, module = ''com.vendor.Tiers'', prefix = [],
      prop_list = [kStatus, kCount]\<rparr>"

definition kPlainNaming :: Naming where
  "kPlainNaming =
     \<lparr>ApiNameToIdentifier = (\<lambda>s. s), SnakeCaseToCamelCase = (\<lambda>s. s),
      CamelCaseToSnakeCase = (\<lambda>s. s), ToUpper = (\<lambda>s. s)\<rparr>"

section \<open>The text of the generated accessors and enums\<close>

text \<open>
  The texts that the theorems below compare the output of the generators with. The key
  of an accessor as the specification words it: the read-only token, the prefix and
  the name, concatenated.
\<close>

definition claimed_key :: "Properties \<Rightarrow> Property \<Rightarrow> string" where
  "claimed_key props p =
     (if get_readonly p then ''ro.'' else []) @ prefix props @ name p"

text \<open>The key with a dot between a non-empty prefix and the name.\<close>

definition effective_key :: "Properties \<Rightarrow> Property \<Rightarrow> string" where
  "effective_key props p =
     (if get_readonly p then ''ro.'' else []) @ prefix props @
     (if prefix props = [] then [] else ''.'') @ name p"

text \<open>The C++ getter and setter of a property, written at the left margin with the
  indentation unit \<open>ind\<close>.\<close>

definition cpp_getter_text :: "string \<Rightarrow> string \<Rightarrow> string \<Rightarrow> string \<Rightarrow> string" where
  \<open>cpp_getter_text ind prop_type prop_id key =
     ''std::optional<'' @ prop_type @ ''> '' @ prop_id @ ''() {'' @ nl @
     ind @ ''return libc::GetProp<'' @ prop_type @ ''>("'' @ key @ ''");'' @ nl @
     ''}'' @ nl\<close>

definition cpp_setter_text ::
  "string \<Rightarrow> Property \<Rightarrow> string \<Rightarrow> string \<Rightarrow> string \<Rightarrow> string" where
  \<open>cpp_setter_text ind p prop_type prop_id key =
     nl @ ''bool '' @ prop_id @ ''(const '' @ prop_type @ ''& value) {'' @ nl @
     ind @ ''return libc::system_property_set("'' @ key @ ''", '' @
       (if type p = String then ''value'' else ''FormatValue(value)'') @
       ''.c_str()) == 0;'' @ nl @
     ''}'' @ nl\<close>

text \<open>The native entry points of a property in the JNI library.\<close>

definition jni_getter_text :: "string \<Rightarrow> string \<Rightarrow> string \<Rightarrow> string" where
  \<open>jni_getter_text ind prop_id key =
     ''jstring JNICALL '' @ prop_id @ ''_get(JNIEnv* env, jclass) {'' @ nl @
     ind @ ''return libc::GetProp(env, "'' @ key @ ''");'' @ nl @
     ''}'' @ nl @ nl\<close>

definition jni_setter_text :: "string \<Rightarrow> string \<Rightarrow> string \<Rightarrow> string" where
  \<open>jni_setter_text ind prop_id key =
     ''jboolean JNICALL '' @ prop_id @ ''_set(JNIEnv* env, jclass, jstring str) {'' @ nl @
     ind @ ''return libc::system_property_set("'' @ key @
       ''", ScopedUtfChars(env, str).c_str()) == 0 ? JNI_TRUE : JNI_FALSE;'' @ nl @
     ''}'' @ nl @ nl\<close>





section \<open>The order of the checks, as the specification words it\<close>

text \<open>
  The specification lists the checks of the validator in an order and says that the
  first failing one decides the message. Each check is a function of its own here,
  \<open>None\<close> when it passes; \<open>ValidateProps_in_order\<close> runs them in the order of the
  specification. It is compared with \<open>ValidateProps\<close>, the embedding of the source, in
  the theorems below.
\<close>

definition module_check :: "Properties \<Rightarrow> string option" where
  "module_check props =
     (if length (Split (module props) ''.'') \<le> 1 then
        Some (''Invalid module name \"'' @ module props @ ''\"'')
      else
        map_option (\<lambda>n. ''Invalid name \"'' @ n @ ''\" in module'')
          (find (\<lambda>n. \<not> IsCorrectIdentifier n) (Split (module props) ''.'')))"

definition prefix_check :: "Properties \<Rightarrow> string option" where
  "prefix_check props =
     (if prefix props \<noteq> [] \<and> \<not> IsCorrectPropertyName (prefix props)
      then Some (''Invalid prefix \"'' @ prefix props @ ''\"'') else None)"

definition nonempty_check :: "Properties \<Rightarrow> string option" where
  "nonempty_check props =
     (if prop_list props = [] then Some ''There is no defined property'' else None)"

text \<open>The message of the first property, in declaration order, that fails its own
  checks.\<close>

definition prop_error :: "Properties \<Rightarrow> Property \<Rightarrow> string option" where
  "prop_error props p = (case ValidateProp props p of Inl e \<Rightarrow> Some e | Inr _ \<Rightarrow> None)"

definition each_prop_check :: "Properties \<Rightarrow> string option" where
  "each_prop_check props =
     (case find (\<lambda>p. prop_error props p \<noteq> None) (prop_list props) of
        None \<Rightarrow> None
      | Some p \<Rightarrow> prop_error props p)"

text \<open>The first property, in declaration order, whose flattened name is the flattened
  name of a property declared before it.\<close>

definition flattened_names :: "Property list \<Rightarrow> string list" where
  "flattened_names ps = map (\<lambda>p. PropNameToIdentifier (name p)) ps"

definition collision_check :: "Properties \<Rightarrow> string option" where
  "collision_check props =
     (let ps = prop_list props in
      map_option (\<lambda>i. ''Duplicated prop name \"'' @ name (ps ! i) @ ''\"'')
        (find (\<lambda>i. PropNameToIdentifier (name (ps ! i)) \<in> set (flattened_names (take i ps)))
              [0..<length ps]))"

text \<open>The owner is the platform if and only if the module is the reserved name.\<close>

definition owner_check :: "Properties \<Rightarrow> string option" where
  "owner_check props =
     (if (owner props = Platform) = (module props = ''android.os.PlatformProperties'')
      then None
      else if owner props = Platform then
        Some (''Platform-defined properties should have '' @
              ''\"android.os.PlatformProperties\" as module name'')
      else
        Some (''Vendor or Odm cannot use \"android.os.PlatformProperties\" as '' @
              ''module name''))"

fun first_failure :: "string option list \<Rightarrow> string + unit" where
  "first_failure [] = Inr ()"
| "first_failure (None # cs) = first_failure cs"
| "first_failure (Some e # cs) = Inl e"

definition ValidateProps_in_order :: "Properties \<Rightarrow> string + unit" where
  "ValidateProps_in_order props =
     first_failure [module_check props, prefix_check props, nonempty_check props,
                    each_prop_check props, collision_check props, owner_check props]"
section \<open>Properties of the library functions\<close>

lemma Split_not_Nil: "Split s ds \<noteq> []"
  by (induction s) (auto split: list.splits)

section \<open>Validation of the schemas of the test suite\<close>

lemmas validate_defs =
  ParseProps_def ValidateProps_def ValidateProp_def ValidateEnumValues_def
  IsCorrectPropertyName_def IsCorrectIdentifier_def PropNameToIdentifier_def
  regex_replace_dot_def StartsWith_def isalpha_def isdigit_def unset_Property_def

lemma ParseProps_kDuplicatedField:
  "ParseProps kDuplicatedField = Inl ''Duplicated prop name \"dup\"''"
  by (simp add: kDuplicatedField_def validate_defs)

lemma ParseProps_kEmptyProp:
  "ParseProps kEmptyProp = Inl ''There is no defined property''"
  by (simp add: kEmptyProp_def validate_defs)

lemma ParseProps_kInvalidPropName:
  "ParseProps kInvalidPropName = Inl ''Invalid prop name \"!@#$\"''"
  by (simp add: kInvalidPropName_def validate_defs)

lemma ParseProps_kInvalidModuleName:
  "ParseProps kInvalidModuleName = Inl ''Invalid module name \"\"''"
  by (simp add: kInvalidModuleName_def validate_defs)

lemma ParseProps_kDuplicatedEnumValue:
  "ParseProps kDuplicatedEnumValue = Inl ''Duplicated enum value \"on\" for prop \"status\"''"
  by (simp add: kDuplicatedEnumValue_def validate_defs)

lemma ParseProps_kEmptyEnumValues:
  "ParseProps kEmptyEnumValues = Inl ''Invalid enum value \"\" for prop \"empty_enum_value\"''"
  by (simp add: kEmptyEnumValues_def validate_defs)

lemma ParseProps_kInvalidNamespaceForPlatform:
  "ParseProps kInvalidNamespaceForPlatform =
     Inl ''Prop \"utclong\" owned by platform cannot have vendor. or odm. namespace''"
  by (simp add: kInvalidNamespaceForPlatform_def validate_defs)


section \<open>Properties of the writer\<close>

lemma Write_Nil: "Write [] w = w"
  by (simp add: Write_def)

lemma Write_append: "Write (a @ b) w = Write b (Write a w)"
  by (simp add: Write_def)

lemma Write_Cons: "Write (c # s) w = Write s (put_char c w)"
  by (simp add: Write_def)

lemma Write_mid:
  "\<not> start_of_line w \<Longrightarrow> plain s \<Longrightarrow> Write s w = w\<lparr>code := code w @ s\<rparr>"
proof (induction s arbitrary: w)
  case Nil
  then show ?case by (simp add: Write_Nil)
next
  case (Cons c s)
  then show ?case
    by (auto simp: Write_Cons put_char_def plain_def)
qed

lemma Write_start:
  assumes "start_of_line w" and "plain s" and "s \<noteq> []"
  shows "Write s w = w\<lparr>start_of_line := False, code := code w @ indentation w @ s\<rparr>"
proof (cases s)
  case Nil
  with assms show ?thesis by simp
next
  case (Cons c t)
  with assms have c: "c \<noteq> CHR 0x0A" and t: "plain t"
    by (auto simp: plain_def)
  have "\<not> start_of_line (put_char c w)"
    using c assms(1) by (simp add: put_char_def)
  then have "Write t (put_char c w) = (put_char c w)\<lparr>code := code (put_char c w) @ t\<rparr>"
    using t by (rule Write_mid)
  then show ?thesis
    using Cons c assms(1) by (simp add: Write_Cons put_char_def)
qed

lemma Write_nl: "Write nl w = w\<lparr>start_of_line := True, code := code w @ nl\<rparr>"
  by (simp add: nl_def Write_Cons Write_Nil put_char_def)


lemma indentation_simps [simp]:
  "indentation (w\<lparr>code := c\<rparr>) = indentation w"
  "indentation (w\<lparr>start_of_line := b\<rparr>) = indentation w"
  by (simp_all add: indentation_def)

lemma indentation_Indent: "indentation (Indent w) = indent_str w @ indentation w"
  by (simp add: indentation_def Indent_def)

lemma seq_Nil: "seq [] w = w"
  by (simp add: seq_def)

lemma seq_Cons: "seq (f # fs) w = seq fs (f w)"
  by (simp add: seq_def)

lemma seq_append: "seq (fs @ gs) w = seq gs (seq fs w)"
  by (simp add: seq_def)


lemma plain_append [simp]: "plain (a @ b) \<longleftrightarrow> plain a \<and> plain b"
  by (auto simp: plain_def)

lemma plain_Nil [simp]: "plain []"
  by (simp add: plain_def)

lemma plain_Cons [simp]: "plain (c # s) \<longleftrightarrow> c \<noteq> CHR 0x0A \<and> plain s"
  by (auto simp: plain_def)


section \<open>Identifiers and property names\<close>

lemma isalpha_not_special: "isalpha c \<Longrightarrow> c \<noteq> CHR 0x0A \<and> c \<noteq> CHR ''.''"
  by (auto simp: isalpha_def)

lemma isdigit_not_special: "isdigit c \<Longrightarrow> c \<noteq> CHR 0x0A \<and> c \<noteq> CHR ''.''"
  by (auto simp: isdigit_def)

lemma IsCorrectIdentifier_chars:
  assumes "IsCorrectIdentifier s" and "c \<in> set s"
  shows "c \<noteq> CHR 0x0A \<and> c \<noteq> CHR ''.''"
proof (cases s)
  case Nil
  with assms show ?thesis by simp
next
  case (Cons d ds)
  with assms(1) have hd: "isalpha d \<or> d = CHR ''_''"
    and tl: "list_all (\<lambda>x. isalpha x \<or> x = CHR ''_'' \<or> isdigit x) ds"
    by (auto simp: IsCorrectIdentifier_def split: if_splits)
  from assms(2) Cons have "c = d \<or> c \<in> set ds" by simp
  then show ?thesis
  proof
    assume "c = d"
    with hd show ?thesis using isalpha_not_special by auto
  next
    assume "c \<in> set ds"
    with tl have "isalpha c \<or> c = CHR ''_'' \<or> isdigit c"
      by (simp add: list_all_iff)
    then show ?thesis using isalpha_not_special isdigit_not_special by auto
  qed
qed


lemma IsCorrectIdentifier_not_Nil: "IsCorrectIdentifier s \<Longrightarrow> s \<noteq> []"
  by (auto simp: IsCorrectIdentifier_def)

lemma Split_covers:
  "c \<in> set s \<Longrightarrow> c \<in> set ds \<or> (\<exists>t \<in> set (Split s ds). c \<in> set t)"
proof (induction s)
  case Nil
  then show ?case by simp
next
  case (Cons d s)
  then show ?case
    by (cases "Split s ds") (auto simp: Split_not_Nil)
qed

lemma IsCorrectPropertyName_plain:
  assumes "IsCorrectPropertyName s"
  shows "plain s"
proof -
  have all: "list_all IsCorrectIdentifier (Split s ''.'')"
    using assms by (simp add: IsCorrectPropertyName_def split: if_splits)
  have "c \<noteq> CHR 0x0A" if "c \<in> set s" for c
  proof -
    from Split_covers [OF that, of "''.''"]
    consider "c = CHR ''.''" | t where "t \<in> set (Split s ''.'')" "c \<in> set t"
      by auto
    then show ?thesis
    proof cases
      case 1
      then show ?thesis by simp
    next
      case 2
      with all have "IsCorrectIdentifier t" by (simp add: list_all_iff)
      with 2 show ?thesis using IsCorrectIdentifier_chars by blast
    qed
  qed
  then show ?thesis by (auto simp: plain_def)
qed

lemma Split_last_delimiter_aux:
  "s \<noteq> [] \<Longrightarrow> last s \<in> set ds \<Longrightarrow>
   last (Split s ds) = [] \<and> 2 \<le> length (Split s ds)"
proof (induction s)
  case Nil
  then show ?case by simp
next
  case (Cons d s)
  show ?case
  proof (cases "s = []")
    case True
    with Cons.prems show ?thesis by simp
  next
    case False
    with Cons have ih: "last (Split s ds) = []" "2 \<le> length (Split s ds)" by simp_all
    from ih(2) obtain t u ts where "Split s ds = t # u # ts"
      by (cases "Split s ds"; cases "tl (Split s ds)") auto
    with ih show ?thesis by (auto split: if_splits)
  qed
qed

lemma Split_last_delimiter:
  "s \<noteq> [] \<Longrightarrow> last s \<in> set ds \<Longrightarrow> last (Split s ds) = []"
  using Split_last_delimiter_aux by blast

lemma IsCorrectPropertyName_last:
  assumes "IsCorrectPropertyName s"
  shows "s \<noteq> [] \<and> last s \<noteq> CHR ''.''"
proof -
  have ne: "s \<noteq> []" and all: "list_all IsCorrectIdentifier (Split s ''.'')"
    using assms by (simp_all add: IsCorrectPropertyName_def split: if_splits)
  have "last s \<noteq> CHR ''.''"
  proof
    assume "last s = CHR ''.''"
    with ne have "last (Split s ''.'') = []"
      by (simp add: Split_last_delimiter)
    moreover have "last (Split s ''.'') \<in> set (Split s ''.'')"
      by (simp add: Split_not_Nil)
    ultimately have "IsCorrectIdentifier []"
      using all by (metis list_all_iff)
    then show False by (simp add: IsCorrectIdentifier_def)
  qed
  with ne show ?thesis by simp
qed

lemma plain_regex_replace_dot: "plain s \<Longrightarrow> plain r \<Longrightarrow> plain (regex_replace_dot s r)"
  by (induction s) (auto simp: regex_replace_dot_def)

lemma plain_PropNameToIdentifier: "plain s \<Longrightarrow> plain (PropNameToIdentifier s)"
  by (simp add: PropNameToIdentifier_def plain_regex_replace_dot)

lemma plain_GetCppPropTypeName:
  "GetCppPropTypeName p = Some T \<Longrightarrow> plain (name p) \<Longrightarrow> plain T"
  by (cases "type p")
     (auto simp: GetCppPropTypeName_def GetCppEnumName_def plain_PropNameToIdentifier)

text \<open>The prefix of the accessors of a schema whose prefix is empty or well-formed.\<close>

lemma accessor_prefix_valid:
  assumes "prefix props = [] \<or> IsCorrectPropertyName (prefix props)"
  shows "accessor_prefix props p =
           (if get_readonly p then ''ro.'' else []) @ prefix props @
           (if prefix props = [] then [] else ''.'')"
proof (cases "prefix props = []")
  case True
  then show ?thesis by (simp add: accessor_prefix_def)
next
  case False
  with assms have "last (prefix props) \<noteq> CHR ''.''"
    using IsCorrectPropertyName_last by blast
  with False show ?thesis by (simp add: accessor_prefix_def)
qed

lemmas writer_steps = seq_Cons seq_Nil seq_append Write_append

lemmas writer_rules = Write_nl Write_mid Write_start Indent_def Dedent_def indentation_def

section \<open>The writer only appends to the text\<close>

lemma code_update_same [simp]: "(w :: CodeWriter)\<lparr>code := code w\<rparr> = w"
  by (cases w) simp

lemma appends_to_codeD:
  assumes "appends_to_code f"
  shows "f w = (f (w\<lparr>code := []\<rparr>))\<lparr>code := code w @ code (f (w\<lparr>code := []\<rparr>))\<rparr>"
proof -
  have "f (w\<lparr>code := code w\<rparr>) =
          (f (w\<lparr>code := []\<rparr>))\<lparr>code := code w @ code (f (w\<lparr>code := []\<rparr>))\<rparr>"
    using assms unfolding appends_to_code_def by blast
  then show ?thesis by simp
qed

lemma appends_to_code_put_char: "appends_to_code (put_char ch)"
  by (simp add: appends_to_code_def put_char_def indentation_def)

lemma appends_to_code_id: "appends_to_code (\<lambda>w. w)"
  by (simp add: appends_to_code_def)

lemma appends_to_code_comp:
  assumes f: "appends_to_code f" and g: "appends_to_code g"
  shows "appends_to_code (\<lambda>w. g (f w))"
  unfolding appends_to_code_def
proof (intro allI)
  fix w :: CodeWriter and c :: string
  let ?w0 = "w\<lparr>code := []\<rparr>"
  let ?f0 = "(f ?w0)\<lparr>code := []\<rparr>"
  define f0 where "f0 = f ?w0"
  define g0 where "g0 = g (f0\<lparr>code := []\<rparr>)"
  have 1: "f (w\<lparr>code := c\<rparr>) = f0\<lparr>code := c @ code f0\<rparr>"
    using f unfolding appends_to_code_def f0_def by blast
  have 2: "g (f0\<lparr>code := c @ code f0\<rparr>) = g0\<lparr>code := (c @ code f0) @ code g0\<rparr>"
    using g unfolding appends_to_code_def g0_def by blast
  have 3: "g f0 = g0\<lparr>code := code f0 @ code g0\<rparr>"
    using appends_to_codeD [OF g, of f0] unfolding g0_def by simp
  have "g (f (w\<lparr>code := c\<rparr>)) = g0\<lparr>code := (c @ code f0) @ code g0\<rparr>"
    by (simp only: 1 2)
  also have "\<dots> = (g f0)\<lparr>code := c @ code (g f0)\<rparr>"
    by (simp add: 3)
  finally show "g (f (w\<lparr>code := c\<rparr>)) = (g (f ?w0))\<lparr>code := c @ code (g (f ?w0))\<rparr>"
    unfolding f0_def .
qed

lemma appends_to_code_Write: "appends_to_code (Write s)"
proof (induction s)
  case Nil
  then show ?case by (simp add: Write_def appends_to_code_def)
next
  case (Cons c s)
  have "Write (c # s) = (\<lambda>w. Write s (put_char c w))"
    by (simp add: Write_def fun_eq_iff)
  then show ?case
    using appends_to_code_comp [OF appends_to_code_put_char Cons.IH] by simp
qed

lemma appends_to_code_Indent: "appends_to_code Indent"
  by (simp add: appends_to_code_def Indent_def)

lemma appends_to_code_Dedent: "appends_to_code Dedent"
  by (simp add: appends_to_code_def Dedent_def)

lemma appends_to_code_seq: "list_all appends_to_code fs \<Longrightarrow> appends_to_code (seq fs)"
proof (induction fs)
  case Nil
  then show ?case by (simp add: seq_def appends_to_code_def)
next
  case (Cons f fs)
  have "seq (f # fs) = (\<lambda>w. seq fs (f w))"
    by (simp add: seq_def fun_eq_iff)
  then show ?case
    using Cons appends_to_code_comp [of f "seq fs"] by simp
qed

lemma appends_seq_Nil: "appends_to_code (seq [])"
  by (simp add: appends_to_code_seq)

lemma appends_seq_Cons:
  "appends_to_code f \<Longrightarrow> appends_to_code (seq fs) \<Longrightarrow> appends_to_code (seq (f # fs))"
proof -
  assume f: "appends_to_code f" and fs: "appends_to_code (seq fs)"
  have "seq (f # fs) = (\<lambda>w. seq fs (f w))"
    by (simp add: seq_def fun_eq_iff)
  then show ?thesis
    using appends_to_code_comp [OF f fs] by simp
qed

lemma appends_seq_append:
  "appends_to_code (seq fs) \<Longrightarrow> appends_to_code (seq gs) \<Longrightarrow>
   appends_to_code (seq (fs @ gs))"
proof -
  assume fs: "appends_to_code (seq fs)" and gs: "appends_to_code (seq gs)"
  have "seq (fs @ gs) = (\<lambda>w. seq gs (seq fs w))"
    by (simp add: seq_def fun_eq_iff)
  then show ?thesis
    using appends_to_code_comp [OF fs gs] by simp
qed

lemma appends_seq_if:
  "appends_to_code (seq fs) \<Longrightarrow> appends_to_code (seq gs) \<Longrightarrow>
   appends_to_code (seq (if b then fs else gs))"
  by simp

lemma appends_seq_map_Write: "appends_to_code (seq (map (\<lambda>v. Write (g v)) vs))"
  by (intro appends_to_code_seq) (induction vs, simp_all add: appends_to_code_Write)

lemmas appends_intros =
  appends_seq_append appends_seq_Cons appends_seq_Nil appends_seq_if appends_seq_map_Write
  appends_to_code_Write appends_to_code_Indent appends_to_code_Dedent

lemma appends_to_code_WriteRustEnumDecl: "appends_to_code (WriteRustEnumDecl N p)"
  unfolding WriteRustEnumDecl_def Let_def by (intro appends_intros)

lemma appends_to_code_WriteRustEnumParser: "appends_to_code (WriteRustEnumParser N p)"
  unfolding WriteRustEnumParser_def Let_def by (intro appends_intros)

lemma appends_to_code_WriteRustEnumFormatter: "appends_to_code (WriteRustEnumFormatter N p)"
  unfolding WriteRustEnumFormatter_def Let_def by (intro appends_intros)

lemma appends_to_code_WriteRustEnum: "appends_to_code (WriteRustEnum N p)"
  unfolding WriteRustEnum_def
  by (intro appends_intros appends_to_code_WriteRustEnumDecl
      appends_to_code_WriteRustEnumParser appends_to_code_WriteRustEnumFormatter)

lemma appends_to_code_WriteRustGetter:
  "appends_to_code (WriteRustGetter p prop_id prop_const rt parser)"
  unfolding WriteRustGetter_def WriteRustMatchArms_def Let_def by (intro appends_intros)

lemma appends_to_code_WriteRustSetter:
  "appends_to_code (WriteRustSetter p prop_id prop_const at fm)"
  unfolding WriteRustSetter_def Let_def by (intro appends_intros)

section \<open>The indentation level after a run of calls\<close>

lemma put_char_layout [simp]:
  "indent_level (put_char ch w) = indent_level w" "indent_str (put_char ch w) = indent_str w"
  by (simp_all add: put_char_def)

lemma Write_layout [simp]:
  "indent_level (Write s w) = indent_level w" "indent_str (Write s w) = indent_str w"
  by (induction s arbitrary: w) (simp_all add: Write_Nil Write_Cons)

lemma seq_map_Write_layout [simp]:
  "indent_level (seq (map (\<lambda>v. Write (g v)) vs) w) = indent_level w"
  "indent_str (seq (map (\<lambda>v. Write (g v)) vs) w) = indent_str w"
  by (induction vs arbitrary: w) (simp_all add: seq_Nil seq_Cons)

lemma Indent_layout [simp]:
  "indent_level (Indent w) = Suc (indent_level w)" "indent_str (Indent w) = indent_str w"
  by (simp_all add: Indent_def)

lemma Dedent_layout [simp]:
  "indent_level (Dedent w) = indent_level w - 1" "indent_str (Dedent w) = indent_str w"
  by (simp_all add: Dedent_def)

lemma start_of_line_Write_nl [simp]: "start_of_line (Write nl w)"
  by (simp add: Write_nl)

lemma length_code_put_char: "length (code w) < length (code (put_char ch w))"
  by (simp add: put_char_def)

lemma length_code_Write: "length (code w) + length s \<le> length (code (Write s w))"
proof (induction s arbitrary: w)
  case Nil
  then show ?case by (simp add: Write_Nil)
next
  case (Cons c s)
  have "length (code (put_char c w)) + length s \<le> length (code (Write s (put_char c w)))"
    by (rule Cons.IH)
  then show ?case
    using length_code_put_char [of w c] by (simp add: Write_Cons)
qed

lemma seq_if: "seq (if b then fs else gs) w = (if b then seq fs w else seq gs w)"
  by simp

lemmas layout_steps = seq_Cons seq_Nil seq_append seq_if Write_append

lemma WriteRustEnumDecl_layout:
  "indent_level (WriteRustEnumDecl N p w) = indent_level w \<and>
   indent_str (WriteRustEnumDecl N p w) = indent_str w \<and>
   start_of_line (WriteRustEnumDecl N p w)"
  unfolding WriteRustEnumDecl_def Let_def
  by (simp only: layout_steps) simp

lemma WriteRustEnumParser_layout:
  "indent_level (WriteRustEnumParser N p w) = indent_level w \<and>
   indent_str (WriteRustEnumParser N p w) = indent_str w \<and>
   start_of_line (WriteRustEnumParser N p w)"
  unfolding WriteRustEnumParser_def Let_def
  by (simp only: layout_steps) simp

lemma WriteRustEnumFormatter_layout:
  "indent_level (WriteRustEnumFormatter N p w) = indent_level w \<and>
   indent_str (WriteRustEnumFormatter N p w) = indent_str w \<and>
   start_of_line (WriteRustEnumFormatter N p w)"
  unfolding WriteRustEnumFormatter_def Let_def
  by (simp only: layout_steps) simp

lemma WriteRustEnum_layout:
  "indent_level (WriteRustEnum N p w) = indent_level w \<and>
   indent_str (WriteRustEnum N p w) = indent_str w \<and>
   start_of_line (WriteRustEnum N p w)"
  unfolding WriteRustEnum_def
  by (simp only: layout_steps WriteRustEnumDecl_layout WriteRustEnumParser_layout
      WriteRustEnumFormatter_layout simp_thms)

lemma WriteRustGetter_layout:
  "indent_level (WriteRustGetter p prop_id prop_const rt parser w) = indent_level w \<and>
   indent_str (WriteRustGetter p prop_id prop_const rt parser w) = indent_str w \<and>
   start_of_line (WriteRustGetter p prop_id prop_const rt parser w)"
  unfolding WriteRustGetter_def WriteRustMatchArms_def Let_def
  by (simp only: layout_steps) simp

lemma WriteRustSetter_layout:
  "indent_level (WriteRustSetter p prop_id prop_const at fm w) = indent_level w \<and>
   indent_str (WriteRustSetter p prop_id prop_const at fm w) = indent_str w \<and>
   start_of_line (WriteRustSetter p prop_id prop_const at fm w)"
  unfolding WriteRustSetter_def Let_def
  by (simp only: layout_steps) simp

section \<open>The generators return\<close>

lemma Rust_type_mapping_total:
  "\<exists>rt pa at fm. GetRustReturnType N p = Some rt \<and> GetTypeParser p = Some pa \<and>
     GetRustAcceptType N p = Some at \<and> GetTypeFormatter p = Some fm"
  by (cases "type p")
     (simp_all add: GetRustReturnType_def GetTypeParser_def GetRustAcceptType_def
        GetTypeFormatter_def)

lemma GenerateRustSource_prop_total: "\<exists>w'. GenerateRustSource_prop N sc p w = Some w'"
proof -
  obtain rt pa at fm where "GetRustReturnType N p = Some rt" "GetTypeParser p = Some pa"
    "GetRustAcceptType N p = Some at" "GetTypeFormatter p = Some fm"
    using Rust_type_mapping_total by blast
  then show ?thesis
    by (simp add: GenerateRustSource_prop_def Let_def)
qed

lemma GenerateRustSource_loop_total: "\<exists>w'. GenerateRustSource_loop N sc ps w = Some w'"
proof (induction ps arbitrary: w)
  case Nil
  then show ?case by simp
next
  case (Cons p ps)
  obtain w1 where "GenerateRustSource_prop N sc p w = Some w1"
    using GenerateRustSource_prop_total by blast
  then show ?case using Cons.IH [of w1] by simp
qed

lemma GenerateRustSource_total: "\<exists>text. GenerateRustSource N props sc = Some text"
  using GenerateRustSource_loop_total by (fastforce simp: GenerateRustSource_def)

lemma GenerateHeader_loop_total:
  "list_all (\<lambda>p. GetCppPropTypeName p \<noteq> None) ps \<Longrightarrow>
   \<exists>w'. GenerateHeader_loop i ps w = Some w'"
proof (induction ps arbitrary: i w)
  case Nil
  then show ?case by simp
next
  case (Cons p ps)
  then obtain T where "GetCppPropTypeName p = Some T" by auto
  then obtain w1 where "GenerateHeader_prop i p w = Some w1"
    by (simp add: GenerateHeader_prop_def Let_def)
  then show ?case using Cons.IH [of "Suc i" w1] Cons.prems by simp
qed

section \<open>The text of a Rust artifact\<close>

text \<open>What the body of the loop does to the writer, for a property it does not skip.\<close>

lemma GenerateRustSource_prop_kept:
  assumes "\<not> Scope_number (scope p) > Scope_number sc"
  shows "\<exists>R. appends_to_code R \<and>
           (\<forall>w. indent_level (R w) = indent_level w \<and> indent_str (R w) = indent_str w \<and>
                start_of_line (R w)) \<and>
           (\<forall>w sc'. \<not> Scope_number (scope p) > Scope_number sc' \<longrightarrow>
              GenerateRustSource_prop N sc' p w =
                Some (R (Write (''/// The property name of the \"'' @
                                CamelCaseToSnakeCase N (ApiNameToIdentifier N (api_name p)) @
                                ''\" API.'' @ nl) w)))"
proof -
  obtain rt pa at fm where ty: "GetRustReturnType N p = Some rt" "GetTypeParser p = Some pa"
    "GetRustAcceptType N p = Some at" "GetTypeFormatter p = Some fm"
    using Rust_type_mapping_total by blast
  define prop_id where "prop_id = CamelCaseToSnakeCase N (ApiNameToIdentifier N (api_name p))"
  define prop_const where "prop_const = ToUpper N prop_id @ ''_PROP''"
  define C where "C = Write (''pub const '' @ prop_const @ '': &str = \"'' @ prop_name p @
                              ''\";'' @ nl @ nl)"
  define E where "E = (if type p = Enum \<or> type p = EnumList then WriteRustEnum N p else (\<lambda>w. w))"
  define G where "G = WriteRustGetter p prop_id prop_const rt pa"
  define S where "S = (if access p = Readonly then (\<lambda>w. w)
                       else WriteRustSetter p prop_id prop_const at fm)"
  define R where "R = (\<lambda>w. S (G (E (C w))))"
  have aC: "appends_to_code C" by (simp add: C_def appends_to_code_Write)
  have aE: "appends_to_code E"
    by (simp add: E_def appends_to_code_WriteRustEnum appends_to_code_id)
  have aG: "appends_to_code G" by (simp add: G_def appends_to_code_WriteRustGetter)
  have aS: "appends_to_code S"
    by (simp add: S_def appends_to_code_WriteRustSetter appends_to_code_id)
  have aR: "appends_to_code R"
    unfolding R_def
    by (intro appends_to_code_comp [OF _ aS] appends_to_code_comp [OF _ aG]
        appends_to_code_comp [OF aC aE])
  have lC: "indent_level (C w) = indent_level w \<and> indent_str (C w) = indent_str w" for w
    by (simp add: C_def)
  have lE: "indent_level (E w) = indent_level w \<and> indent_str (E w) = indent_str w" for w
    by (simp add: E_def WriteRustEnum_layout)
  have lG: "indent_level (G w) = indent_level w \<and> indent_str (G w) = indent_str w \<and>
            start_of_line (G w)" for w
    unfolding G_def by (rule WriteRustGetter_layout)
  have lS: "indent_level (S w) = indent_level w \<and> indent_str (S w) = indent_str w \<and>
            (start_of_line w \<longrightarrow> start_of_line (S w))" for w
    by (simp add: S_def WriteRustSetter_layout)
  have lR: "indent_level (R w) = indent_level w \<and> indent_str (R w) = indent_str w \<and>
            start_of_line (R w)" for w
    unfolding R_def using lC lE lG lS by simp
  have eq: "GenerateRustSource_prop N sc' p w =
              Some (R (Write (''/// The property name of the \"'' @ prop_id @ ''\" API.'' @ nl) w))"
    if "\<not> Scope_number (scope p) > Scope_number sc'" for w sc'
    using that
    by (simp add: GenerateRustSource_prop_def Let_def ty R_def S_def G_def E_def C_def
        prop_const_def prop_id_def seq_Cons seq_Nil seq_append del: append.simps)
  show ?thesis
    using aR lR eq unfolding prop_id_def by blast
qed


text \<open>At indentation level 0 a call to \<open>Write\<close> appends its argument unchanged.\<close>

lemma code_put_char_level_0:
  "indent_level w = 0 \<Longrightarrow> code (put_char ch w) = code w @ [ch]"
  by (simp add: put_char_def indentation_def)

lemma code_Write_level_0: "indent_level w = 0 \<Longrightarrow> code (Write s w) = code w @ s"
proof (induction s arbitrary: w)
  case Nil
  then show ?case by (simp add: Write_Nil)
next
  case (Cons c s)
  have "indent_level (put_char c w) = 0" using Cons.prems by simp
  then have "code (Write s (put_char c w)) = code (put_char c w) @ s" by (rule Cons.IH)
  then show ?case
    using Cons.prems by (simp add: Write_Cons code_put_char_level_0)
qed

lemma fresh_writer:
  assumes "indent_level w = 0" and "indent_str w = kIndent" and "start_of_line w"
  shows "w\<lparr>code := []\<rparr> = new_CodeWriter kIndent"
  using assms by (cases w) (simp add: new_CodeWriter_def)

lemma rust_block_skipped:
  "Scope_number (scope p) > Scope_number sc \<Longrightarrow> rust_block N sc p = []"
  by (simp add: rust_block_def GenerateRustSource_prop_def Code_def new_CodeWriter_def)

text \<open>The text that one round of the loop appends is the block of the property, and the
  writer is at the start of a line at level 0 again.\<close>

lemma GenerateRustSource_prop_text:
  assumes "indent_level w = 0" and "indent_str w = kIndent" and "start_of_line w"
  shows "\<exists>w'. GenerateRustSource_prop N sc p w = Some w' \<and>
              code w' = code w @ rust_block N sc p \<and>
              indent_level w' = 0 \<and> indent_str w' = kIndent \<and> start_of_line w'"
proof (cases "Scope_number (scope p) > Scope_number sc")
  case True
  then show ?thesis
    using assms by (simp add: rust_block_skipped) (simp add: GenerateRustSource_prop_def)
next
  case False
  let ?first = "''/// The property name of the \"'' @
                CamelCaseToSnakeCase N (ApiNameToIdentifier N (api_name p)) @ ''\" API.'' @ nl"
  obtain R where R: "appends_to_code R"
    and lay: "\<And>w. indent_level (R w) = indent_level w \<and> indent_str (R w) = indent_str w \<and>
                   start_of_line (R w)"
    and eq: "\<And>w. GenerateRustSource_prop N sc p w = Some (R (Write ?first w))"
    using GenerateRustSource_prop_kept [OF False, of N] False by blast
  define F where "F = (\<lambda>w. R (Write ?first w))"
  have F: "appends_to_code F"
    unfolding F_def by (rule appends_to_code_comp [OF appends_to_code_Write R])
  have "F w = (F (w\<lparr>code := []\<rparr>))\<lparr>code := code w @ code (F (w\<lparr>code := []\<rparr>))\<rparr>"
    by (rule appends_to_codeD [OF F])
  then have 1: "code (F w) = code w @ code (F (new_CodeWriter kIndent))"
    by (simp add: fresh_writer [OF assms])
  have 2: "rust_block N sc p = code (F (new_CodeWriter kIndent))"
    by (simp add: rust_block_def eq F_def Code_def)
  have 3: "GenerateRustSource_prop N sc p w = Some (F w)"
    by (simp add: eq F_def)
  have 4: "indent_level (F w) = 0 \<and> indent_str (F w) = kIndent \<and> start_of_line (F w)"
    using lay assms by (simp add: F_def)
  show ?thesis using 1 2 3 4 by simp
qed

text \<open>The block of a property the loop does not skip begins with the documentation line
  of the property's constant.\<close>

lemma rust_block_kept:
  assumes "\<not> Scope_number (scope p) > Scope_number sc"
  shows "Sublist.prefix (''/// The property name of the \"'' @
           CamelCaseToSnakeCase N (ApiNameToIdentifier N (api_name p)) @ ''\" API.'' @ nl)
           (rust_block N sc p) \<and> rust_block N sc p \<noteq> []"
proof -
  define first where "first = ''/// The property name of the \"'' @
                CamelCaseToSnakeCase N (ApiNameToIdentifier N (api_name p)) @ ''\" API.'' @ nl"
  let ?w = "new_CodeWriter kIndent"
  obtain R where R: "appends_to_code R"
    and eq: "\<And>w. GenerateRustSource_prop N sc p w = Some (R (Write first w))"
    using GenerateRustSource_prop_kept [OF assms, of N] assms unfolding first_def by blast
  define v where "v = Write first ?w"
  have "R v = (R (v\<lparr>code := []\<rparr>))\<lparr>code := code v @ code (R (v\<lparr>code := []\<rparr>))\<rparr>"
    by (rule appends_to_codeD [OF R])
  then have "code (R v) = code ((R (v\<lparr>code := []\<rparr>))\<lparr>code := code v @ code (R (v\<lparr>code := []\<rparr>))\<rparr>)"
    by (rule arg_cong)
  then have 1: "code (R v) = code v @ code (R (v\<lparr>code := []\<rparr>))"
    by simp
  have 2: "code v = first"
    unfolding v_def by (simp add: code_Write_level_0 new_CodeWriter_def)
  have 3: "rust_block N sc p = code (R v)"
    by (simp add: rust_block_def eq Code_def v_def)
  have 4: "rust_block N sc p = first @ code (R (v\<lparr>code := []\<rparr>))"
    using 1 2 3 by simp
  have 5: "first \<noteq> []"
    by (simp add: first_def)
  have "Sublist.prefix first (rust_block N sc p)"
    using 4 by (rule prefixI)
  moreover have "rust_block N sc p \<noteq> []"
    using 4 5 by simp
  ultimately show ?thesis
    unfolding first_def by simp
qed

text \<open>The block of a property does not depend on the tier, as long as the tier keeps
  the property.\<close>

lemma rust_block_tier:
  assumes "\<not> Scope_number (scope p) > Scope_number a"
    and "\<not> Scope_number (scope p) > Scope_number b"
  shows "rust_block N a p = rust_block N b p"
proof -
  obtain R where eq: "\<And>w sc'. \<not> Scope_number (scope p) > Scope_number sc' \<Longrightarrow>
      GenerateRustSource_prop N sc' p w =
        Some (R (Write (''/// The property name of the \"'' @
                        CamelCaseToSnakeCase N (ApiNameToIdentifier N (api_name p)) @
                        ''\" API.'' @ nl) w))"
    using GenerateRustSource_prop_kept [OF assms(1), of N] by blast
  show ?thesis
    by (simp add: rust_block_def eq [OF assms(1)] eq [OF assms(2)])
qed

lemma GenerateRustSource_loop_text:
  assumes "indent_level w = 0" and "indent_str w = kIndent" and "start_of_line w"
  shows "\<exists>w'. GenerateRustSource_loop N sc ps w = Some w' \<and>
              code w' = code w @ concat (map (rust_block N sc) ps)"
  using assms
proof (induction ps arbitrary: w)
  case Nil
  then show ?case by simp
next
  case (Cons p ps)
  obtain w1 where w1: "GenerateRustSource_prop N sc p w = Some w1"
    "code w1 = code w @ rust_block N sc p"
    "indent_level w1 = 0" "indent_str w1 = kIndent" "start_of_line w1"
    using GenerateRustSource_prop_text [OF Cons.prems] by blast
  obtain w' where "GenerateRustSource_loop N sc ps w1 = Some w'"
    "code w' = code w1 @ concat (map (rust_block N sc) ps)"
    using Cons.IH [OF w1(3-5)] by blast
  then show ?case using w1 by simp
qed

text \<open>A Rust artifact is the preamble followed by the blocks of the properties, in
  declaration order.\<close>

lemma GenerateRustSource_text:
  "GenerateRustSource N props sc =
     Some (rust_preamble @ concat (map (rust_block N sc) (prop_list props)))"
proof -
  let ?w = "seq [Write (kDocs @ nl @ nl), Write kGeneratedFileFooterComments,
                 Write (kRustFileImports @ nl @ nl)] (new_CodeWriter kIndent)"
  have lay: "indent_level ?w = 0" "indent_str ?w = kIndent" "start_of_line ?w"
    by (simp_all only: layout_steps append_assoc [symmetric])
       (simp_all add: new_CodeWriter_def)
  obtain w' where "GenerateRustSource_loop N sc (prop_list props) ?w = Some w'"
    "code w' = code ?w @ concat (map (rust_block N sc) (prop_list props))"
    using GenerateRustSource_loop_text [OF lay] by blast
  then show ?thesis
    by (simp add: GenerateRustSource_def rust_preamble_def Code_def)
qed

section \<open>The getter as a Rust program\<close>

text \<open>The getter that \<^verbatim>\<open>GenerateRustSource\<close> writes is the concrete syntax of
  \<open>rust_getter\<close>, after its documentation.\<close>

lemma WriteRustGetter_items:
  "WriteRustGetter p prop_id prop_const rt parser w =
     write_item (rust_getter p prop_id prop_const rt parser) (rust_getter_docs p w)"
  by (simp add: WriteRustGetter_def rust_getter_def rust_getter_name_def rust_getter_body_def
      rust_getter_docs_def Let_def seq_Cons seq_Nil seq_append)

lemma appends_to_code_write_stmt: "appends_to_code (write_stmt s)"
  by (cases s) (simp_all add: WriteRustMatchArms_def, (intro appends_intros)+)

lemma appends_to_code_write_stmts: "appends_to_code (seq (map write_stmt ss))"
  by (induction ss) (simp_all add: appends_seq_Nil appends_seq_Cons appends_to_code_write_stmt)

lemma appends_to_code_write_item: "appends_to_code (write_item it)"
proof (cases it)
  case (ConstItem c v)
  then show ?thesis by (simp add: appends_to_code_Write)
next
  case (FnItem f ret body)
  show ?thesis
    unfolding FnItem write_item.simps
    by (intro appends_intros appends_to_code_write_stmts)
qed

lemma appends_to_code_rust_getter_docs: "appends_to_code (rust_getter_docs p)"
  unfolding rust_getter_docs_def by (intro appends_intros)

lemma rust_getter_docs_layout:
  "indent_level (rust_getter_docs p w) = indent_level w \<and>
   indent_str (rust_getter_docs p w) = indent_str w \<and>
   start_of_line (rust_getter_docs p w)"
  unfolding rust_getter_docs_def
  by (simp only: layout_steps) simp

text \<open>A writer at the start of a line at level 0: what a function that only appends
  writes to it is what it writes to a new writer.\<close>

lemma appends_to_code_text:
  assumes "appends_to_code f"
    and "indent_level w = 0" and "indent_str w = kIndent" and "start_of_line w"
  shows "code (f w) = code w @ code (f (new_CodeWriter kIndent))"
proof -
  have "f w = (f (w\<lparr>code := []\<rparr>))\<lparr>code := code w @ code (f (w\<lparr>code := []\<rparr>))\<rparr>"
    by (rule appends_to_codeD [OF assms(1)])
  then have "code (f w) =
      code ((f (w\<lparr>code := []\<rparr>))\<lparr>code := code w @ code (f (w\<lparr>code := []\<rparr>))\<rparr>)"
    by (rule arg_cong)
  then show ?thesis
    by (simp add: fresh_writer [OF assms(2-4)])
qed

text \<open>The block of a property that the loop does not skip: the documentation line, the
  constant, the enum if there is one, the documentation of the getter, the getter, and
  the setter if there is one.\<close>

lemma rust_block_items:
  assumes "\<not> Scope_number (scope p) > Scope_number sc"
    and "GetRustReturnType N p = Some rt" and "GetTypeParser p = Some parser"
  shows "\<exists>enum_text setter_text.
           rust_block N sc p =
             (''/// The property name of the \"'' @ rust_prop_id N p @ ''\" API.'' @ nl) @
             item_text (rust_const p (rust_prop_const N p)) @
             enum_text @
             Code (rust_getter_docs p (new_CodeWriter kIndent)) @
             item_text (rust_getter p (rust_prop_id N p) (rust_prop_const N p) rt parser) @
             setter_text"
proof -
  obtain at fm where ty: "GetRustAcceptType N p = Some at" "GetTypeFormatter p = Some fm"
    using Rust_type_mapping_total by blast
  let ?new = "new_CodeWriter kIndent"
  define prop_id where "prop_id = rust_prop_id N p"
  define prop_const where "prop_const = rust_prop_const N p"
  define first where "first = ''/// The property name of the \"'' @ prop_id @ ''\" API.'' @ nl"
  define E where "E = (if type p = Enum \<or> type p = EnumList then WriteRustEnum N p else (\<lambda>w. w))"
  define S where "S = (if access p = Readonly then (\<lambda>w. w)
                       else WriteRustSetter p prop_id prop_const at fm)"
  define c where "c = rust_const p prop_const"
  define g where "g = rust_getter p prop_id prop_const rt parser"
  define w1 where "w1 = Write first ?new"
  define w2 where "w2 = write_item c w1"
  define w3 where "w3 = E w2"
  define w4 where "w4 = rust_getter_docs p w3"
  define w5 where "w5 = write_item g w4"
  have aE: "appends_to_code E"
    by (simp add: E_def appends_to_code_WriteRustEnum appends_to_code_id)
  have aS: "appends_to_code S"
    by (simp add: S_def appends_to_code_WriteRustSetter appends_to_code_id)
  have "GenerateRustSource_prop N sc p ?new =
          Some (S (WriteRustGetter p prop_id prop_const rt parser
                     (E (Write (''pub const '' @ prop_const @ '': &str = \"'' @ prop_name p @
                                ''\";'' @ nl @ nl) (Write first ?new)))))"
    using assms
    by (simp add: GenerateRustSource_prop_def Let_def ty S_def E_def first_def
        prop_const_def prop_id_def rust_prop_id_def rust_prop_const_def
        seq_Cons seq_Nil seq_append del: append.simps)
  then have block: "rust_block N sc p = code (S w5)"
    by (simp add: rust_block_def Code_def WriteRustGetter_items w5_def w4_def w3_def w2_def
        w1_def g_def c_def rust_const_def del: append.simps)
  have l0: "indent_level ?new = 0" "indent_str ?new = kIndent" "start_of_line ?new"
    by (simp_all add: new_CodeWriter_def)
  have l1: "indent_level w1 = 0" "indent_str w1 = kIndent" "start_of_line w1"
    unfolding w1_def first_def
    by (simp_all only: layout_steps append_assoc [symmetric])
       (simp_all add: new_CodeWriter_def)
  have l2: "indent_level w2 = 0" "indent_str w2 = kIndent" "start_of_line w2"
    unfolding w2_def c_def rust_const_def write_item.simps
    by (simp_all only: layout_steps append_assoc [symmetric])
       (simp_all add: l1)
  have l3: "indent_level w3 = 0" "indent_str w3 = kIndent" "start_of_line w3"
    unfolding w3_def E_def using l2 by (simp_all add: WriteRustEnum_layout)
  have l4: "indent_level w4 = 0" "indent_str w4 = kIndent" "start_of_line w4"
    unfolding w4_def using l3 by (simp_all add: rust_getter_docs_layout)
  have l5: "indent_level w5 = 0" "indent_str w5 = kIndent" "start_of_line w5"
    using WriteRustGetter_layout [of p prop_id prop_const rt parser w3] l3
    by (simp_all add: WriteRustGetter_items w5_def w4_def g_def)
  have t1: "code w1 = first"
    unfolding w1_def by (simp add: code_Write_level_0 new_CodeWriter_def)
  have t2: "code w2 = code w1 @ item_text c"
    unfolding w2_def item_text_def Code_def
    by (rule appends_to_code_text [OF appends_to_code_write_item l1])
  have t3: "code w3 = code w2 @ code (E ?new)"
    unfolding w3_def by (rule appends_to_code_text [OF aE l2])
  have t4: "code w4 = code w3 @ Code (rust_getter_docs p ?new)"
    unfolding w4_def Code_def
    by (rule appends_to_code_text [OF appends_to_code_rust_getter_docs l3])
  have t5: "code w5 = code w4 @ item_text g"
    unfolding w5_def item_text_def Code_def
    by (rule appends_to_code_text [OF appends_to_code_write_item l4])
  have t6: "code (S w5) = code w5 @ code (S ?new)"
    by (rule appends_to_code_text [OF aS l5])
  have "rust_block N sc p =
          first @ item_text c @ code (E ?new) @ Code (rust_getter_docs p ?new) @
          item_text g @ code (S ?new)"
    by (simp add: block t1 t2 t3 t4 t5 t6)
  then show ?thesis
    unfolding first_def c_def g_def prop_id_def prop_const_def by blast
qed

text \<open>The meaning of the getter of a property with a legacy name.\<close>

lemma call_fn_rust_getter:
  assumes "legacy_prop_name p \<noteq> []"
  shows "call_fn [rust_const p prop_const, rust_getter p prop_id prop_const rt parser]
           (rust_getter_name prop_id) read parsers =
         Some (if is_ok (read_and_parse read (parsers parser) (prop_name p))
               then (read_and_parse read (parsers parser) (prop_name p), [prop_name p])
               else (read_and_parse read (parsers parser) (legacy_prop_name p),
                     [prop_name p, legacy_prop_name p]))"
  using assms
  by (simp add: call_fn_def rust_const_def rust_getter_def rust_getter_body_def)

section \<open>The validator runs its checks in order\<close>

lemma ValidateEachProp_find:
  "ValidateEachProp props ps =
     (case find (\<lambda>p. prop_error props p \<noteq> None) ps of
        None \<Rightarrow> Inr ()
      | Some p \<Rightarrow> (case prop_error props p of Some e \<Rightarrow> Inl e | None \<Rightarrow> Inr ()))"
  by (induction ps) (auto simp: prop_error_def split: sum.splits)

lemma find_map_option: "find P (map f xs) = map_option f (find (\<lambda>x. P (f x)) xs)"
  by (induction xs) auto

lemma find_upt_Suc:
  "find P [0..<Suc n] = (if P 0 then Some 0 else map_option Suc (find (\<lambda>i. P (Suc i)) [0..<n]))"
proof -
  have "[0..<Suc n] = 0 # map Suc [0..<n]"
    by (simp add: upt_conv_Cons map_Suc_upt del: upt_Suc)
  then show ?thesis
    by (simp add: find_map_option del: upt_Suc)
qed

text \<open>The loop with the set finds the first index whose flattened name occurs among
  the flattened names before it.\<close>

lemma first_duplicate_prop_find:
  "first_duplicate_prop seen ps =
     map_option (\<lambda>i. ps ! i)
       (find (\<lambda>i. PropNameToIdentifier (name (ps ! i)) \<in> seen \<union> set (flattened_names (take i ps)))
             [0..<length ps])"
proof (induction ps arbitrary: seen)
  case Nil
  then show ?case by simp
next
  case (Cons p ps)
  show ?case
    by (simp add: Cons.IH find_upt_Suc flattened_names_def option.map_comp comp_def disj_ac
        del: upt_Suc)
qed

lemma ValidateProps_staged:
  "ValidateProps props =
     (case module_check props of Some e \<Rightarrow> Inl e | None \<Rightarrow>
      (case prefix_check props of Some e \<Rightarrow> Inl e | None \<Rightarrow>
       (case nonempty_check props of Some e \<Rightarrow> Inl e | None \<Rightarrow>
        (case each_prop_check props of Some e \<Rightarrow> Inl e | None \<Rightarrow>
         (case collision_check props of Some e \<Rightarrow> Inl e | None \<Rightarrow>
          (case owner_check props of Some e \<Rightarrow> Inl e | None \<Rightarrow> Inr ()))))))"
proof (cases "module_check props")
  case (Some e)
  show ?thesis
  proof (cases "length (Split (module props) ''.'') \<le> 1")
    case True
    then show ?thesis
      by (simp add: ValidateProps_def module_check_def Let_def)
  next
    case False
    with Some obtain n
      where "find (\<lambda>n. \<not> IsCorrectIdentifier n) (Split (module props) ''.'') = Some n"
      by (auto simp: module_check_def)
    then show ?thesis using False
      by (simp add: ValidateProps_def module_check_def Let_def)
  qed
next
  case m: None
  then have m1: "\<not> length (Split (module props) ''.'') \<le> 1"
    and m2: "find (\<lambda>n. \<not> IsCorrectIdentifier n) (Split (module props) ''.'') = None"
    by (simp_all add: module_check_def split: if_splits)
  show ?thesis
  proof (cases "prefix_check props")
    case (Some e)
    then show ?thesis using m m1 m2
      by (simp add: ValidateProps_def prefix_check_def Let_def split: if_splits)
  next
    case p: None
    then have p1:
      "(prefix props \<noteq> [] \<and> \<not> IsCorrectPropertyName (prefix props)) = False"
      by (simp add: prefix_check_def split: if_splits)
    show ?thesis
    proof (cases "prop_list props = []")
      case True
      then show ?thesis using m p m1 m2
        by (simp add: ValidateProps_def nonempty_check_def Let_def p1)
    next
      case ne: False
      then have n: "nonempty_check props = None" by (simp add: nonempty_check_def)
      show ?thesis
      proof (cases "each_prop_check props")
        case (Some e)
        then have "ValidateEachProp props (prop_list props) = Inl e"
          by (auto simp: ValidateEachProp_find each_prop_check_def split: option.splits)
        then show ?thesis using m p n Some m1 m2 ne
          by (simp add: ValidateProps_def Let_def p1)
      next
        case ep: None
        then have e1: "ValidateEachProp props (prop_list props) = Inr ()"
          by (auto simp: ValidateEachProp_find each_prop_check_def split: option.splits)
        have c: "collision_check props =
            map_option (\<lambda>q. ''Duplicated prop name \"'' @ name q @ ''\"'')
              (first_duplicate_prop {} (prop_list props))"
          by (simp add: collision_check_def first_duplicate_prop_find Let_def
              option.map_comp comp_def)
        show ?thesis
        proof (cases "first_duplicate_prop {} (prop_list props)")
          case (Some q)
          then show ?thesis using m p n ep m1 m2 ne e1 c
            by (simp add: ValidateProps_def Let_def p1)
        next
          case None
          then show ?thesis using m p n ep m1 m2 ne e1 c
            by (simp add: ValidateProps_def Let_def owner_check_def p1)
        qed
      qed
    qed
  qed
qed

lemma ValidateProps_in_order_staged:
  "ValidateProps_in_order props =
     (case module_check props of Some e \<Rightarrow> Inl e | None \<Rightarrow>
      (case prefix_check props of Some e \<Rightarrow> Inl e | None \<Rightarrow>
       (case nonempty_check props of Some e \<Rightarrow> Inl e | None \<Rightarrow>
        (case each_prop_check props of Some e \<Rightarrow> Inl e | None \<Rightarrow>
         (case collision_check props of Some e \<Rightarrow> Inl e | None \<Rightarrow>
          (case owner_check props of Some e \<Rightarrow> Inl e | None \<Rightarrow> Inr ()))))))"
  by (simp add: ValidateProps_in_order_def split: option.splits)

lemma ValidateProps_refines: "ValidateProps props = ValidateProps_in_order props"
  by (simp only: ValidateProps_staged ValidateProps_in_order_staged)

lemma ParseProps_error: "ParseProps props = Inl e \<longleftrightarrow> ValidateProps props = Inl e"
  by (auto simp: ParseProps_def split: sum.splits)

lemma ParseProps_kFlattenedCollision:
  "ParseProps kFlattenedCollision = Inl ''Duplicated prop name \"a_b\"''"
  by (simp add: kFlattenedCollision_def validate_defs)

lemma ParseProps_kInvalidNameAndDuplicate:
  "ParseProps kInvalidNameAndDuplicate = Inl ''Invalid prop name \"!@#$\"''"
  by (simp add: kInvalidNameAndDuplicate_def validate_defs)

lemma ParseProps_kDuplicateAndWrongModule:
  "ParseProps kDuplicateAndWrongModule = Inl ''Duplicated prop name \"dup\"''"
  by (simp add: kDuplicateAndWrongModule_def validate_defs)

lemma ParseProps_kVendorPrefixForPlatform:
  "ParseProps kVendorPrefixForPlatform = Inr kVendorPrefixForPlatform"
  by (simp add: kVendorPrefixForPlatform_def validate_defs)

lemma ParseProps_kUnsignedSchema: "ParseProps kUnsignedSchema = Inr kUnsignedSchema"
  by (simp add: kUnsignedSchema_def kCount_def validate_defs)

lemma ParseProps_kEnumSchema: "ParseProps kEnumSchema = Inr kEnumSchema"
  by (simp add: kEnumSchema_def kStatus_def validate_defs)

text \<open>
  Claim C1. The five invalid schemas of the test suite are rejected, each with exactly
  the message the test expects: two properties named \<open>dup\<close>, no property at all, a
  property named \<open>!@#$\<close>, an empty module, and the enum values
  \<open>on|off|intermediate|on\<close> of the property \<open>status\<close>.
\<close>

theorem C1_validator_rejects_are_exact:
  "ParseProps kDuplicatedField = Inl ''Duplicated prop name \"dup\"'' \<and>
   ParseProps kEmptyProp = Inl ''There is no defined property'' \<and>
   ParseProps kInvalidPropName = Inl ''Invalid prop name \"!@#$\"'' \<and>
   ParseProps kInvalidModuleName = Inl ''Invalid module name \"\"'' \<and>
   ParseProps kDuplicatedEnumValue =
     Inl ''Duplicated enum value \"on\" for prop \"status\"''"
  using ParseProps_kDuplicatedField ParseProps_kEmptyProp ParseProps_kInvalidPropName
    ParseProps_kInvalidModuleName ParseProps_kDuplicatedEnumValue
  by blast

text \<open>
  Claim C4. Validation is fail-fast and runs its checks in this order: the shape of the
  module, the shape of the prefix, the non-empty property list, the checks of each
  property in declaration order, the scan for collisions among the flattened property
  names, and the biconditional between the platform owner and the reserved module name.
  The message is that of the first failing check. Two names that differ only in dot
  against underscore collide; an invalid property name wins over a duplicated pair; a
  duplicated pair wins over a wrong module name for the owner.
\<close>

theorem C4_validation_reports_first_failing_check:
  "ValidateProps props = ValidateProps_in_order props \<and>
   ParseProps kFlattenedCollision = Inl ''Duplicated prop name \"a_b\"'' \<and>
   ParseProps kInvalidNameAndDuplicate = Inl ''Invalid prop name \"!@#$\"'' \<and>
   ParseProps kDuplicateAndWrongModule = Inl ''Duplicated prop name \"dup\"''"
  using ValidateProps_refines ParseProps_kFlattenedCollision
    ParseProps_kInvalidNameAndDuplicate ParseProps_kDuplicateAndWrongModule
  by blast

theorem C4_witness:
  "ValidateProps kDuplicateAndWrongModule = ValidateProps_in_order kDuplicateAndWrongModule \<and>
   ValidateProps_in_order kDuplicateAndWrongModule = Inl ''Duplicated prop name \"dup\"''"
proof -
  have "ValidateProps kDuplicateAndWrongModule = Inl ''Duplicated prop name \"dup\"''"
    using ParseProps_kDuplicateAndWrongModule by (simp add: ParseProps_error)
  then show ?thesis
    using C4_validation_reports_first_failing_check [of kDuplicateAndWrongModule] by simp
qed

section \<open>Enum values\<close>






text \<open>
  Claim C5 says that every Enum or EnumList property whose \<open>enum_values\<close> is the empty
  string makes validation fail with the message \<open>Invalid enum value "" for prop "<name>"\<close>.
  \<^verbatim>\<open>ValidateProp\<close> checks the name of a property before its enum values: the Enum
  property of the schema \<open>kEmptyEnumValuesBadName\<close> has no enum values and the name
  \<open>1st.mode\<close>, and validation fails with the message \<open>Invalid prop name "1st.mode"\<close>.
\<close>

theorem C5_counterexample:
  "type (hd (prop_list kEmptyEnumValuesBadName)) = Enum \<and>
   enum_values (hd (prop_list kEmptyEnumValuesBadName)) = [] \<and>
   name (hd (prop_list kEmptyEnumValuesBadName)) = ''1st.mode'' \<and>
   ValidateProp kEmptyEnumValuesBadName (hd (prop_list kEmptyEnumValuesBadName)) =
     Inl ''Invalid prop name \"1st.mode\"'' \<and>
   ParseProps kEmptyEnumValuesBadName = Inl ''Invalid prop name \"1st.mode\"'' \<and>
   ParseProps kEmptyEnumValuesBadName \<noteq> Inl ''Invalid enum value \"\" for prop \"1st.mode\"''"
  by (simp add: kEmptyEnumValuesBadName_def validate_defs)



section \<open>The namespace check of the platform\<close>

text \<open>
  Claim C2 says that a schema of the platform is rejected when the key that the
  generated getter uses starts with \<open>vendor.\<close> or \<open>odm.\<close>. The validator tests
  \<^verbatim>\<open>props.prefix() + prop.name()\<close>, while the generators put a dot between a non-empty
  prefix and the name. The schema \<open>kVendorPrefixForPlatform\<close> (owner Platform, the
  reserved module name, prefix \<open>vendor\<close>, a writable property \<open>foo\<close>) passes validation,
  and the key of its accessors is \<open>vendor.foo\<close>.
\<close>

theorem C2_platform_schema_with_vendor_key_is_accepted:
  "owner kVendorPrefixForPlatform = Platform \<and>
   ParseProps kVendorPrefixForPlatform = Inr kVendorPrefixForPlatform \<and>
   accessor_prefix kVendorPrefixForPlatform (hd (prop_list kVendorPrefixForPlatform)) @
     name (hd (prop_list kVendorPrefixForPlatform)) = ''vendor.foo'' \<and>
   StartsWith ''vendor.foo'' ''vendor.''"
  using ParseProps_kVendorPrefixForPlatform
  by (simp add: kVendorPrefixForPlatform_def accessor_prefix_def get_readonly_def
      unset_Property_def StartsWith_def)

section \<open>The legacy key\<close>

text \<open>
  Claim C7. For a property with a legacy name, \<^verbatim>\<open>WriteRustGetter\<close> writes the concrete
  syntax of the function \<open>rust_getter\<close>, after its documentation, and the artifact of
  \<^verbatim>\<open>GenerateRustSource\<close> is the preamble and the blocks of the properties, where the block
  of a property whose scope is at most the tier holds the constant with the key of the
  property and this function. A call of the function reads the primary key first. If
  that attempt succeeds (a value, or no value at all), its result is returned and no
  other key is read. If and only if it yields an error (the read fails, or the value
  does not parse), the function reads the legacy key and returns the result of that
  second attempt.
\<close>

theorem C7_legacy_fallback_on_error_only:
  assumes "legacy_prop_name p \<noteq> []"
  shows "\<exists>rt parser.
    GetRustReturnType N p = Some rt \<and> GetTypeParser p = Some parser \<and>
    (\<forall>w. WriteRustGetter p (rust_prop_id N p) (rust_prop_const N p) rt parser w =
          write_item (rust_getter p (rust_prop_id N p) (rust_prop_const N p) rt parser)
            (rust_getter_docs p w)) \<and>
    GenerateRustSource N props sc =
      Some (rust_preamble @ concat (map (rust_block N sc) (prop_list props))) \<and>
    (Scope_number (scope p) \<le> Scope_number sc \<longrightarrow>
       (\<exists>enum_text setter_text.
          rust_block N sc p =
            (''/// The property name of the \"'' @ rust_prop_id N p @ ''\" API.'' @ nl) @
            item_text (rust_const p (rust_prop_const N p)) @
            enum_text @
            Code (rust_getter_docs p (new_CodeWriter kIndent)) @
            item_text (rust_getter p (rust_prop_id N p) (rust_prop_const N p) rt parser) @
            setter_text)) \<and>
    (\<forall>read parsers.
       call_fn [rust_const p (rust_prop_const N p),
                rust_getter p (rust_prop_id N p) (rust_prop_const N p) rt parser]
         (rust_getter_name (rust_prop_id N p)) read parsers =
       Some (if is_ok (read_and_parse read (parsers parser) (prop_name p))
             then (read_and_parse read (parsers parser) (prop_name p), [prop_name p])
             else (read_and_parse read (parsers parser) (legacy_prop_name p),
                   [prop_name p, legacy_prop_name p])) \<and>
       (\<not> is_ok (read_and_parse read (parsers parser) (prop_name p)) \<longleftrightarrow>
          (\<exists>e. read (prop_name p) = Inl e) \<or>
          (\<exists>val pe. read (prop_name p) = Inr (Some val) \<and> parsers parser val = Inl pe)) \<and>
       (read (prop_name p) = Inr None \<longrightarrow>
          read_and_parse read (parsers parser) (prop_name p) = Inr None))"
proof -
  obtain rt parser where ty: "GetRustReturnType N p = Some rt" "GetTypeParser p = Some parser"
    using Rust_type_mapping_total by blast
  have 1: "\<forall>w. WriteRustGetter p (rust_prop_id N p) (rust_prop_const N p) rt parser w =
          write_item (rust_getter p (rust_prop_id N p) (rust_prop_const N p) rt parser)
            (rust_getter_docs p w)"
    by (simp add: WriteRustGetter_items)
  have 2: "GenerateRustSource N props sc =
      Some (rust_preamble @ concat (map (rust_block N sc) (prop_list props)))"
    by (rule GenerateRustSource_text)
  have 3: "Scope_number (scope p) \<le> Scope_number sc \<longrightarrow>
       (\<exists>enum_text setter_text.
          rust_block N sc p =
            (''/// The property name of the \"'' @ rust_prop_id N p @ ''\" API.'' @ nl) @
            item_text (rust_const p (rust_prop_const N p)) @
            enum_text @
            Code (rust_getter_docs p (new_CodeWriter kIndent)) @
            item_text (rust_getter p (rust_prop_id N p) (rust_prop_const N p) rt parser) @
            setter_text)"
  proof
    assume "Scope_number (scope p) \<le> Scope_number sc"
    then have "\<not> Scope_number (scope p) > Scope_number sc" by simp
    then show "\<exists>enum_text setter_text.
          rust_block N sc p =
            (''/// The property name of the \"'' @ rust_prop_id N p @ ''\" API.'' @ nl) @
            item_text (rust_const p (rust_prop_const N p)) @
            enum_text @
            Code (rust_getter_docs p (new_CodeWriter kIndent)) @
            item_text (rust_getter p (rust_prop_id N p) (rust_prop_const N p) rt parser) @
            setter_text"
      using ty by (rule rust_block_items)
  qed
  have 4: "call_fn [rust_const p (rust_prop_const N p),
                rust_getter p (rust_prop_id N p) (rust_prop_const N p) rt parser]
         (rust_getter_name (rust_prop_id N p)) read parsers =
       Some (if is_ok (read_and_parse read (parsers parser) (prop_name p))
             then (read_and_parse read (parsers parser) (prop_name p), [prop_name p])
             else (read_and_parse read (parsers parser) (legacy_prop_name p),
                   [prop_name p, legacy_prop_name p]))"
    for read :: "string \<Rightarrow> 'e + string option" and parsers :: "string \<Rightarrow> string \<Rightarrow> 'pe + 'v"
    using assms by (rule call_fn_rust_getter)
  have 5: "\<not> is_ok (read_and_parse read (parsers parser) (prop_name p)) \<longleftrightarrow>
          (\<exists>e. read (prop_name p) = Inl e) \<or>
          (\<exists>val pe. read (prop_name p) = Inr (Some val) \<and> parsers parser val = Inl pe)"
    for read :: "string \<Rightarrow> 'e + string option" and parsers :: "string \<Rightarrow> string \<Rightarrow> 'pe + 'v"
    by (auto simp: is_ok_def read_and_parse_def split: sum.splits option.splits)
  have 6: "read (prop_name p) = Inr None \<longrightarrow>
          read_and_parse read (parsers parser) (prop_name p) = Inr None"
    for read :: "string \<Rightarrow> 'e + string option" and parsers :: "string \<Rightarrow> string \<Rightarrow> 'pe + 'v"
    by (simp add: read_and_parse_def)
  show ?thesis
    using ty 1 2 3 4 5 6 by blast
qed

text \<open>The getter of \<open>kStatus\<close>, and a store in which the primary key cannot be read and
  the legacy key holds \<open>on\<close>; every parser accepts every string.\<close>

theorem C7_witness:
  \<open>legacy_prop_name kStatus \<noteq> [] \<and>
   Scope_number (scope kStatus) \<le> Scope_number System \<and>
   item_text (rust_getter kStatus ''status'' ''status_PROP'' ''statusValues''
                ''parsers_formatters::parse'') =
     ''pub fn status() -> std::result::Result<Option<statusValues>, SysPropError> {'' @ nl @
     ''    let result = match system_properties::read(status_PROP) {'' @ nl @
     ''        Err(e) => Err(SysPropError::FetchError(e)),'' @ nl @
     ''        Ok(Some(val)) => parsers_formatters::parse(val.as_str()).map_err(SysPropError::ParseError).map(Some),'' @ nl @
     ''        Ok(None) => Ok(None),'' @ nl @
     ''    };'' @ nl @
     ''    if result.is_ok() { return result; }'' @ nl @
     ''    log::debug!("Failed to fetch the original property '' @
       (CHR 0x27 # ''vendor.status'') @ ''' ('{}'), falling back to the legacy one '' @
       (CHR 0x27 # ''vendor.old_status'') @ '''.", result.unwrap_err());'' @ nl @
     ''    match system_properties::read("vendor.old_status") {'' @ nl @
     ''        Err(e) => Err(SysPropError::FetchError(e)),'' @ nl @
     ''        Ok(Some(val)) => parsers_formatters::parse(val.as_str()).map_err(SysPropError::ParseError).map(Some),'' @ nl @
     ''        Ok(None) => Ok(None),'' @ nl @
     ''    }'' @ nl @
     ''}'' @ nl @ nl \<and>
   call_fn [rust_const kStatus ''status_PROP'',
            rust_getter kStatus ''status'' ''status_PROP'' ''statusValues''
              ''parsers_formatters::parse'']
     ''status''
     (\<lambda>k. if k = ''vendor.status'' then Inl ''unreadable'' else Inr (Some ''on''))
     (\<lambda>path s. Inr s :: string + string) =
   Some (Inr (Some ''on''), [''vendor.status'', ''vendor.old_status''])\<close>
proof -
  let ?read = "\<lambda>k. if k = ''vendor.status'' then Inl ''unreadable'' else Inr (Some ''on'')"
  let ?parsers = "\<lambda>path s. Inr s :: string + string"
  have 1: "legacy_prop_name kStatus \<noteq> []"
    by (simp add: kStatus_def unset_Property_def)
  have 2: "Scope_number (scope kStatus) \<le> Scope_number System"
    by (simp add: kStatus_def unset_Property_def)
  have n: "rust_prop_id kPlainNaming kStatus = ''status''"
    "rust_prop_const kPlainNaming kStatus = ''status_PROP''"
    "rust_getter_name ''status'' = ''status''"
    "prop_name kStatus = ''vendor.status''"
    "legacy_prop_name kStatus = ''vendor.old_status''"
    by (simp_all add: rust_prop_id_def rust_prop_const_def rust_getter_name_def
        kPlainNaming_def kStatus_def unset_Property_def)
  have t: "GetRustReturnType kPlainNaming kStatus = Some ''statusValues''"
    "GetTypeParser kStatus = Some ''parsers_formatters::parse''"
    by (simp_all add: GetRustReturnType_def GetTypeParser_def GetRustEnumType_def
        kPlainNaming_def kStatus_def unset_Property_def)
  have r: "\<not> is_ok (read_and_parse ?read (?parsers ''parsers_formatters::parse'')
                     ''vendor.status'')"
    "read_and_parse ?read (?parsers ''parsers_formatters::parse'') ''vendor.old_status'' =
       Inr (Some ''on'')"
    by (simp_all add: read_and_parse_def is_ok_def)
  have "\<exists>rt parser.
    GetRustReturnType kPlainNaming kStatus = Some rt \<and> GetTypeParser kStatus = Some parser \<and>
    (\<forall>w. WriteRustGetter kStatus (rust_prop_id kPlainNaming kStatus)
            (rust_prop_const kPlainNaming kStatus) rt parser w =
          write_item (rust_getter kStatus (rust_prop_id kPlainNaming kStatus)
                        (rust_prop_const kPlainNaming kStatus) rt parser)
            (rust_getter_docs kStatus w)) \<and>
    GenerateRustSource kPlainNaming kTieredSchema System =
      Some (rust_preamble @
            concat (map (rust_block kPlainNaming System) (prop_list kTieredSchema))) \<and>
    (Scope_number (scope kStatus) \<le> Scope_number System \<longrightarrow>
       (\<exists>enum_text setter_text.
          rust_block kPlainNaming System kStatus =
            (''/// The property name of the \"'' @ rust_prop_id kPlainNaming kStatus @
             ''\" API.'' @ nl) @
            item_text (rust_const kStatus (rust_prop_const kPlainNaming kStatus)) @
            enum_text @
            Code (rust_getter_docs kStatus (new_CodeWriter kIndent)) @
            item_text (rust_getter kStatus (rust_prop_id kPlainNaming kStatus)
                         (rust_prop_const kPlainNaming kStatus) rt parser) @
            setter_text)) \<and>
    (\<forall>(read :: string \<Rightarrow> string + string option)
       (parsers :: string \<Rightarrow> string \<Rightarrow> string + string).
       call_fn [rust_const kStatus (rust_prop_const kPlainNaming kStatus),
                rust_getter kStatus (rust_prop_id kPlainNaming kStatus)
                  (rust_prop_const kPlainNaming kStatus) rt parser]
         (rust_getter_name (rust_prop_id kPlainNaming kStatus)) read parsers =
       Some (if is_ok (read_and_parse read (parsers parser) (prop_name kStatus))
             then (read_and_parse read (parsers parser) (prop_name kStatus),
                   [prop_name kStatus])
             else (read_and_parse read (parsers parser) (legacy_prop_name kStatus),
                   [prop_name kStatus, legacy_prop_name kStatus])) \<and>
       (\<not> is_ok (read_and_parse read (parsers parser) (prop_name kStatus)) \<longleftrightarrow>
          (\<exists>e. read (prop_name kStatus) = Inl e) \<or>
          (\<exists>val pe. read (prop_name kStatus) = Inr (Some val) \<and>
             parsers parser val = Inl pe)) \<and>
       (read (prop_name kStatus) = Inr None \<longrightarrow>
          read_and_parse read (parsers parser) (prop_name kStatus) = Inr None))"
    (is "\<exists>rt parser. ?P rt parser")
    by (rule C7_legacy_fallback_on_error_only [OF 1])
  then obtain rt parser where all: "?P rt parser"
    by (elim exE)
  note ty = all [THEN conjunct1] all [THEN conjunct2, THEN conjunct1]
  note sem = all [THEN conjunct2, THEN conjunct2, THEN conjunct2, THEN conjunct2,
      THEN conjunct2, rule_format, THEN conjunct1]
  have rt: "rt = ''statusValues''" "parser = ''parsers_formatters::parse''"
    using ty t by simp_all
  have 3: "call_fn [rust_const kStatus ''status_PROP'',
            rust_getter kStatus ''status'' ''status_PROP'' ''statusValues''
              ''parsers_formatters::parse'']
     ''status'' ?read ?parsers =
   Some (Inr (Some ''on''), [''vendor.status'', ''vendor.old_status''])"
    using sem [of ?read ?parsers] unfolding rt n using r by simp
  have 4: \<open>item_text (rust_getter kStatus ''status'' ''status_PROP'' ''statusValues''
                ''parsers_formatters::parse'') =
     ''pub fn status() -> std::result::Result<Option<statusValues>, SysPropError> {'' @ nl @
     ''    let result = match system_properties::read(status_PROP) {'' @ nl @
     ''        Err(e) => Err(SysPropError::FetchError(e)),'' @ nl @
     ''        Ok(Some(val)) => parsers_formatters::parse(val.as_str()).map_err(SysPropError::ParseError).map(Some),'' @ nl @
     ''        Ok(None) => Ok(None),'' @ nl @
     ''    };'' @ nl @
     ''    if result.is_ok() { return result; }'' @ nl @
     ''    log::debug!("Failed to fetch the original property '' @
       (CHR 0x27 # ''vendor.status'') @ ''' ('{}'), falling back to the legacy one '' @
       (CHR 0x27 # ''vendor.old_status'') @ '''.", result.unwrap_err());'' @ nl @
     ''    match system_properties::read("vendor.old_status") {'' @ nl @
     ''        Err(e) => Err(SysPropError::FetchError(e)),'' @ nl @
     ''        Ok(Some(val)) => parsers_formatters::parse(val.as_str()).map_err(SysPropError::ParseError).map(Some),'' @ nl @
     ''        Ok(None) => Ok(None),'' @ nl @
     ''    }'' @ nl @
     ''}'' @ nl @ nl\<close>
    unfolding item_text_def Code_def rust_getter_def rust_getter_body_def write_item.simps
    apply (simp only: 1 if_True if_False not_False_eq_True)
    apply (simp only: n rust_getter_name_def list.map write_stmt.simps render_key.simps
        WriteRustMatchArms_def)
    apply (simp only: writer_steps)
    apply (simp add: writer_rules new_CodeWriter_def kIndent_def plain_def)
    done
  show ?thesis
    by (intro conjI 1 2 3 4)
qed

section \<open>Scope filtering\<close>

text \<open>
  Claim C8. Scope filtering is monotone. The Rust artifact of a tier is the preamble
  followed by the blocks of the properties of the schema, in declaration order, where the
  block of a property is the text that the body of the loop of \<^verbatim>\<open>GenerateRustSource\<close>
  writes for it. The block of a property is not empty exactly when the scope of the
  property is at most the tier, and it then begins with the documentation line of the
  property. For two tiers \<open>a\<close> below or equal to \<open>b\<close>, every property with a block in the
  artifact of \<open>a\<close> has the same block in the artifact of \<open>b\<close>, so the properties included at
  \<open>a\<close> are among those included at \<open>b\<close>.
\<close>

theorem C8_scope_filtering_is_monotone:
  assumes "Scope_number a \<le> Scope_number b"
  shows "GenerateRustSource N props a =
           Some (rust_preamble @ concat (map (rust_block N a) (prop_list props))) \<and>
         GenerateRustSource N props b =
           Some (rust_preamble @ concat (map (rust_block N b) (prop_list props))) \<and>
         (\<forall>p. (rust_block N a p \<noteq> []) = (Scope_number (scope p) \<le> Scope_number a)) \<and>
         (\<forall>p. rust_block N a p \<noteq> [] \<longrightarrow>
              rust_block N b p = rust_block N a p \<and>
              Sublist.prefix (''/// The property name of the \"'' @
                      CamelCaseToSnakeCase N (ApiNameToIdentifier N (api_name p)) @
                      ''\" API.'' @ nl) (rust_block N a p)) \<and>
         {p \<in> set (prop_list props). rust_block N a p \<noteq> []} \<subseteq>
           {p \<in> set (prop_list props). rust_block N b p \<noteq> []}"
proof -
  have ne: "(rust_block N sc p \<noteq> []) = (Scope_number (scope p) \<le> Scope_number sc)" for sc p
  proof (cases "Scope_number (scope p) > Scope_number sc")
    case True
    then show ?thesis by (simp add: rust_block_skipped)
  next
    case False
    then have "rust_block N sc p \<noteq> []" using rust_block_kept [OF False, of N] by blast
    then show ?thesis using False by simp
  qed
  have same: "rust_block N b p = rust_block N a p \<and>
              Sublist.prefix (''/// The property name of the \"'' @
                      CamelCaseToSnakeCase N (ApiNameToIdentifier N (api_name p)) @
                      ''\" API.'' @ nl) (rust_block N a p)"
    if "rust_block N a p \<noteq> []" for p
  proof -
    have ka: "\<not> Scope_number (scope p) > Scope_number a" using that ne [of a p] by simp
    then have kb: "\<not> Scope_number (scope p) > Scope_number b" using assms by simp
    show ?thesis
      using rust_block_tier [OF kb ka, of N] rust_block_kept [OF ka, of N] by blast
  qed
  have sub: "{p \<in> set (prop_list props). rust_block N a p \<noteq> []} \<subseteq>
             {p \<in> set (prop_list props). rust_block N b p \<noteq> []}"
    using ne assms by auto
  have 1: "GenerateRustSource N props a =
           Some (rust_preamble @ concat (map (rust_block N a) (prop_list props)))"
    by (rule GenerateRustSource_text)
  have 2: "GenerateRustSource N props b =
           Some (rust_preamble @ concat (map (rust_block N b) (prop_list props)))"
    by (rule GenerateRustSource_text)
  have 3: "\<forall>p. (rust_block N a p \<noteq> []) = (Scope_number (scope p) \<le> Scope_number a)"
    using ne by blast
  have 4: "\<forall>p. rust_block N a p \<noteq> [] \<longrightarrow>
              rust_block N b p = rust_block N a p \<and>
              Sublist.prefix (''/// The property name of the \"'' @
                      CamelCaseToSnakeCase N (ApiNameToIdentifier N (api_name p)) @
                      ''\" API.'' @ nl) (rust_block N a p)"
    using same by blast
  show ?thesis
    by (intro conjI 1 2 3 4 sub)
qed

theorem C8_witness:
  "Scope_number Public \<le> Scope_number System \<and>
   GenerateRustSource kPlainNaming kTieredSchema Public =
     Some (rust_preamble @ rust_block kPlainNaming Public kCount) \<and>
   GenerateRustSource kPlainNaming kTieredSchema System =
     Some (rust_preamble @ rust_block kPlainNaming System kStatus @
           rust_block kPlainNaming Public kCount) \<and>
   rust_block kPlainNaming Public kStatus = [] \<and>
   rust_block kPlainNaming System kStatus \<noteq> [] \<and>
   Sublist.prefix (''/// The property name of the \"count\" API.'' @ nl)
     (rust_block kPlainNaming Public kCount)"
proof -
  have le: "Scope_number Public \<le> Scope_number System" by simp
  have s: "scope kStatus = System" "scope kCount = Public"
    by (simp_all add: kStatus_def kCount_def unset_Property_def)
  have n: "CamelCaseToSnakeCase kPlainNaming (ApiNameToIdentifier kPlainNaming (api_name kCount)) =
           ''count''"
    by (simp add: kPlainNaming_def kCount_def unset_Property_def)
  have l: "prop_list kTieredSchema = [kStatus, kCount]"
    by (simp add: kTieredSchema_def)
  note t = C8_scope_filtering_is_monotone [OF le, of kPlainNaming kTieredSchema]
  have a: "\<forall>p. (rust_block kPlainNaming Public p \<noteq> []) =
                (Scope_number (scope p) \<le> Scope_number Public)"
    using t by blast
  have b: "\<forall>p. rust_block kPlainNaming Public p \<noteq> [] \<longrightarrow>
             rust_block kPlainNaming System p = rust_block kPlainNaming Public p \<and>
             Sublist.prefix (''/// The property name of the \"'' @
                     CamelCaseToSnakeCase kPlainNaming
                       (ApiNameToIdentifier kPlainNaming (api_name p)) @
                     ''\" API.'' @ nl) (rust_block kPlainNaming Public p)"
    using t by blast
  have 1: "rust_block kPlainNaming Public kStatus = []"
    using a [rule_format, of kStatus] by (simp add: s)
  have 2: "rust_block kPlainNaming Public kCount \<noteq> []"
    using a [rule_format, of kCount] by (simp add: s)
  have 3: "rust_block kPlainNaming System kCount = rust_block kPlainNaming Public kCount"
    using b [rule_format, OF 2] by blast
  have 4: "Sublist.prefix (''/// The property name of the \"count\" API.'' @ nl)
             (rust_block kPlainNaming Public kCount)"
    using b [rule_format, OF 2] unfolding n by simp
  have "\<forall>p. (rust_block kPlainNaming System p \<noteq> []) =
             (Scope_number (scope p) \<le> Scope_number System)"
    using C8_scope_filtering_is_monotone [of System System kPlainNaming kTieredSchema]
    by blast
  then have 5: "rust_block kPlainNaming System kStatus \<noteq> []"
    by (simp add: s)
  have 6: "GenerateRustSource kPlainNaming kTieredSchema Public =
             Some (rust_preamble @ rust_block kPlainNaming Public kCount)"
    using t by (simp add: l 1)
  have 7: "GenerateRustSource kPlainNaming kTieredSchema System =
             Some (rust_preamble @ rust_block kPlainNaming System kStatus @
                   rust_block kPlainNaming Public kCount)"
    using t by (simp add: l 3)
  show ?thesis
    by (intro conjI le 1 4 5 6 7)
qed

section \<open>The unsigned types\<close>

lemma GenerateHeader_loop_unmapped:
  "p \<in> set ps \<Longrightarrow> GetCppPropTypeName p = None \<Longrightarrow> GenerateHeader_loop i ps w = None"
  by (induction ps arbitrary: i w)
     (auto simp: GenerateHeader_prop_def Let_def split: option.splits)

lemma GenerateHeader_unmapped:
  "p \<in> set (prop_list props) \<Longrightarrow> GetCppPropTypeName p = None \<Longrightarrow>
   GenerateHeader props r e = None"
  by (simp add: GenerateHeader_def Let_def GenerateHeader_loop_unmapped)

text \<open>The validator looks at the type of a property only to tell the enum types from
  the others.\<close>

lemma ValidateProp_type_irrelevant:
  "type p \<noteq> Enum \<Longrightarrow> type p \<noteq> EnumList \<Longrightarrow> t \<noteq> Enum \<Longrightarrow> t \<noteq> EnumList \<Longrightarrow>
   ValidateProp props (p\<lparr>type := t\<rparr>) = ValidateProp props p"
  by (auto simp: ValidateProp_def)

text \<open>
  Claim C10. For a property of type UInt, ULong, UIntList or ULongList the type-mapping
  functions of the C++ and Java generators reach their default branch,
  \<^verbatim>\<open>__builtin_unreachable()\<close>, while the Rust generator maps the type. No step of the
  validation rejects these types: the validator treats such a property as it treats
  the same property with type Integer, and the header generator reaches the default
  branch for every schema that holds such a property.
\<close>

theorem C10_unsigned_types_reach_the_unreachable_branch:
  assumes "type p \<in> {UInt, ULong, UIntList, ULongList}"
  shows "GetCppPropTypeName p = None \<and> GetJavaTypeName p = None \<and>
         (\<exists>t. GetRustReturnType N p = Some t) \<and>
         ValidateProp props (p\<lparr>type := Integer\<rparr>) = ValidateProp props p \<and>
         (p \<in> set (prop_list props) \<longrightarrow> GenerateHeader props r e = None)"
  using assms
  by (auto simp: GetCppPropTypeName_def GetJavaTypeName_def GetRustReturnType_def
      ValidateProp_type_irrelevant GenerateHeader_unmapped)

text \<open>The schema \<open>kUnsignedSchema\<close> passes validation, and no header is generated for
  it.\<close>

theorem C10_witness:
  "ParseProps kUnsignedSchema = Inr kUnsignedSchema \<and>
   GetCppPropTypeName kCount = None \<and> GetJavaTypeName kCount = None \<and>
   GenerateHeader kUnsignedSchema [] [] = None"
proof -
  have 1: "type kCount \<in> {UInt, ULong, UIntList, ULongList}"
    by (simp add: kCount_def unset_Property_def)
  have 2: "kCount \<in> set (prop_list kUnsignedSchema)"
    by (simp add: kUnsignedSchema_def)
  show ?thesis
    using C10_unsigned_types_reach_the_unreachable_branch
            [where p = kCount and props = kUnsignedSchema and r = "[]" and e = "[]"]
      1 2 ParseProps_kUnsignedSchema
    by blast
qed

section \<open>The key of the generated accessors\<close>

lemma GenerateSource_prop_text:
  assumes T: "GetCppPropTypeName p = Some T"
    and pl: "plain (name p)" "plain (prefix props)"
    and w: "start_of_line w" "indent_level w = 0"
  shows "\<exists>W. GenerateSource_prop props i p w = Some W \<and>
            code W = code w @ (if i > 0 then nl else []) @
              cpp_getter_text (indent_str w) T (PropNameToIdentifier (name p))
                (accessor_prefix props p @ name p) @
              (if get_readonly p then []
               else cpp_setter_text (indent_str w) p T (PropNameToIdentifier (name p))
                      (accessor_prefix props p @ name p))"
proof -
  have pT: "plain T" using T pl(1) by (rule plain_GetCppPropTypeName)
  have pid: "plain (PropNameToIdentifier (name p))"
    using pl(1) by (rule plain_PropNameToIdentifier)
  have ppre: "plain (accessor_prefix props p)"
    using pl(2) by (simp add: accessor_prefix_def Let_def)
  define w1 where "w1 = (if i > 0 then Write nl w else w)"
  have w1: "start_of_line w1" "indent_level w1 = 0" "indent_str w1 = indent_str w"
    "code w1 = code w @ (if i > 0 then nl else [])"
    using w by (simp_all add: w1_def Write_nl)
  show ?thesis
  proof (cases "get_readonly p")
    case True
    show ?thesis
      unfolding GenerateSource_prop_def Let_def T option.case w1_def [symmetric]
      apply (simp only: True not_True_eq_False if_False writer_steps)
      apply (simp add: writer_rules w1 pT pid ppre pl cpp_getter_text_def True)
      done
  next
    case False
    show ?thesis
      unfolding GenerateSource_prop_def Let_def T option.case w1_def [symmetric]
      apply (simp only: False not_False_eq_True if_True writer_steps)
      apply (simp add: writer_rules w1 pT pid ppre pl cpp_getter_text_def cpp_setter_text_def
          False)
      done
  qed
qed

lemma GenerateJniLibrary_prop_text:
  assumes pl: "plain (name p)" "plain (prefix props)"
    and w: "start_of_line w" "indent_level w = 0"
  shows "code (GenerateJniLibrary_prop props p w) =
           code w @
           jni_getter_text (indent_str w) (PropNameToIdentifier (name p))
             (accessor_prefix props p @ name p) @
           (if get_readonly p then []
            else jni_setter_text (indent_str w) (PropNameToIdentifier (name p))
                   (accessor_prefix props p @ name p))"
proof -
  have pid: "plain (PropNameToIdentifier (name p))"
    using pl(1) by (rule plain_PropNameToIdentifier)
  have ppre: "plain (accessor_prefix props p)"
    using pl(2) by (simp add: accessor_prefix_def Let_def)
  show ?thesis
  proof (cases "get_readonly p")
    case True
    show ?thesis
      unfolding GenerateJniLibrary_prop_def Let_def
      apply (simp only: True not_True_eq_False if_False writer_steps)
      apply (simp add: writer_rules w pid ppre pl jni_getter_text_def True)
      done
  next
    case False
    show ?thesis
      unfolding GenerateJniLibrary_prop_def Let_def
      apply (simp only: False not_False_eq_True if_True writer_steps)
      apply (simp add: writer_rules w pid ppre pl jni_getter_text_def jni_setter_text_def False)
      done
  qed
qed

lemma ValidateProp_ok_name: "ValidateProp props p = Inr () \<Longrightarrow> IsCorrectPropertyName (name p)"
  by (auto simp: ValidateProp_def split: if_splits)

lemma ValidateProps_ok_prefix:
  assumes "ValidateProps props = Inr ()"
  shows "prefix props = [] \<or> IsCorrectPropertyName (prefix props)"
proof -
  have "prefix_check props = None"
    using assms by (simp add: ValidateProps_staged split: option.splits)
  then show ?thesis
    by (auto simp: prefix_check_def split: if_splits)
qed

lemma ValidateProps_ok_prop:
  assumes "ValidateProps props = Inr ()" and "p \<in> set (prop_list props)"
  shows "ValidateProp props p = Inr ()"
proof -
  have "each_prop_check props = None"
    using assms(1) by (simp add: ValidateProps_staged split: option.splits)
  then have "find (\<lambda>q. prop_error props q \<noteq> None) (prop_list props) = None"
    by (auto simp: each_prop_check_def find_Some_iff split: option.splits)
  with assms(2) have "prop_error props p = None"
    by (auto simp: find_None_iff)
  then show ?thesis
    by (cases "ValidateProp props p") (auto simp: prop_error_def)
qed

text \<open>What \<open>ParseProps\<close> returns: the validated schema, every \<open>readonly\<close> set.\<close>

lemma ParseProps_ok:
  assumes "ParseProps props0 = Inr props" and "p \<in> set (prop_list props)"
  shows "ValidateProps props0 = Inr ()" and "prefix props = prefix props0"
    and "owner props = owner props0"
    and "\<exists>p0 \<in> set (prop_list props0).
           name p = name p0 \<and> type p = type p0 \<and> enum_values p = enum_values p0"
    and "readonly p \<noteq> None"
proof -
  show v: "ValidateProps props0 = Inr ()"
    using assms(1) by (cases "ValidateProps props0") (auto simp: ParseProps_def)
  then have eq: "props = props0\<lparr>prop_list :=
      map (\<lambda>p. if readonly p = None then p\<lparr>readonly := Some True\<rparr> else p)
          (prop_list props0)\<rparr>"
    using assms(1) by (simp add: ParseProps_def)
  show "prefix props = prefix props0" and "owner props = owner props0"
    by (simp_all add: eq)
  from assms(2) obtain p0 where p0: "p0 \<in> set (prop_list props0)"
    and p: "p = (if readonly p0 = None then p0\<lparr>readonly := Some True\<rparr> else p0)"
    by (auto simp: eq)
  show "\<exists>p0 \<in> set (prop_list props0).
           name p = name p0 \<and> type p = type p0 \<and> enum_values p = enum_values p0"
    using p0 p by (intro bexI [of _ p0]) auto
  show "readonly p \<noteq> None"
    using p by auto
qed

lemma ParseProps_plain:
  assumes "ParseProps props0 = Inr props" and "p \<in> set (prop_list props)"
  shows "plain (name p)" and "plain (prefix props)"
    and "prefix props = [] \<or> IsCorrectPropertyName (prefix props)"
proof -
  note ok = ParseProps_ok [OF assms]
  from ok(4) obtain p0 where "p0 \<in> set (prop_list props0)" and "name p = name p0"
    by blast
  then have "IsCorrectPropertyName (name p)"
    using ValidateProps_ok_prop [OF ok(1)] ValidateProp_ok_name by metis
  then show "plain (name p)" by (rule IsCorrectPropertyName_plain)
  show pre: "prefix props = [] \<or> IsCorrectPropertyName (prefix props)"
    using ValidateProps_ok_prefix [OF ok(1)] ok(2) by simp
  then show "plain (prefix props)"
    using IsCorrectPropertyName_plain by auto
qed

lemma accessor_key_valid:
  assumes "prefix props = [] \<or> IsCorrectPropertyName (prefix props)"
  shows "accessor_prefix props p @ name p = effective_key props p"
  by (simp add: accessor_prefix_valid [OF assms] effective_key_def)

lemma ParseProps_kPrefixedSchema: "ParseProps kPrefixedSchema = Inr kPrefixedSchema_parsed"
  by (simp add: kPrefixedSchema_def kPrefixedSchema_parsed_def kSpeed_def validate_defs)

text \<open>
  Claim C3 says that the key in the generated getter and setter is the read-only token,
  the prefix and the name, concatenated. The schema \<open>kPrefixedSchema\<close> passes validation;
  the getter that \<^verbatim>\<open>GenerateSource\<close> writes for its property reads the key
  \<open>ro.com.vendor.speed\<close>, and the concatenation is \<open>ro.com.vendorspeed\<close>.
\<close>

theorem C3_counterexample:
  \<open>ParseProps kPrefixedSchema = Inr kPrefixedSchema_parsed \<and>
   map_option code
     (GenerateSource_prop kPrefixedSchema_parsed 0 (kSpeed\<lparr>readonly := Some True\<rparr>)
        (new_CodeWriter kIndent)) =
     Some (''std::optional<std::int32_t> speed() {'' @ nl @
           ''    return libc::GetProp<std::int32_t>("ro.com.vendor.speed");'' @ nl @
           ''}'' @ nl) \<and>
   claimed_key kPrefixedSchema_parsed (kSpeed\<lparr>readonly := Some True\<rparr>) =
     ''ro.com.vendorspeed'' \<and>
   ''ro.com.vendor.speed'' \<noteq> ''ro.com.vendorspeed''\<close>
proof -
  let ?p = "kSpeed\<lparr>readonly := Some True\<rparr>"
  let ?w = "new_CodeWriter kIndent"
  have T: "GetCppPropTypeName ?p = Some ''std::int32_t''"
    by (simp add: GetCppPropTypeName_def kSpeed_def unset_Property_def)
  have pl: "plain (name ?p)" "plain (prefix kPrefixedSchema_parsed)"
    by (simp_all add: kSpeed_def unset_Property_def kPrefixedSchema_parsed_def)
  have w: "start_of_line ?w" "indent_level ?w = 0"
    by (simp_all add: new_CodeWriter_def)
  from GenerateSource_prop_text [OF T pl w, of 0]
  have "map_option code (GenerateSource_prop kPrefixedSchema_parsed 0 ?p ?w) =
          Some (cpp_getter_text kIndent ''std::int32_t'' (PropNameToIdentifier ''speed'')
                  (accessor_prefix kPrefixedSchema_parsed ?p @ ''speed''))"
    by (auto simp: new_CodeWriter_def get_readonly_def kSpeed_def unset_Property_def)
  moreover have "accessor_prefix kPrefixedSchema_parsed ?p = ''ro.com.vendor.''"
    by (simp add: accessor_prefix_def get_readonly_def kPrefixedSchema_parsed_def)
  moreover have "PropNameToIdentifier ''speed'' = ''speed''"
    by (simp add: PropNameToIdentifier_def regex_replace_dot_def)
  ultimately have
    "map_option code (GenerateSource_prop kPrefixedSchema_parsed 0 ?p ?w) =
       Some (cpp_getter_text kIndent ''std::int32_t'' ''speed'' ''ro.com.vendor.speed'')"
    by simp
  moreover have "claimed_key kPrefixedSchema_parsed ?p = ''ro.com.vendorspeed''"
    by (simp add: claimed_key_def get_readonly_def kPrefixedSchema_parsed_def kSpeed_def
        unset_Property_def)
  ultimately show ?thesis
    using ParseProps_kPrefixedSchema by (simp add: cpp_getter_text_def kIndent_def)
qed

text \<open>
  Claim C3, amended. For every property of a validated schema, the key in the
  generated C++ getter and setter and in the generated JNI entry points is the
  read-only token \<open>ro.\<close> if the property is read-only, the prefix, a dot if the prefix
  is not empty, and the name of the property.
\<close>

theorem C3_accessor_key_with_separating_dot:
  assumes "ParseProps props0 = Inr props" and "p \<in> set (prop_list props)"
    and "start_of_line w" and "indent_level w = 0"
  shows "accessor_prefix props p @ name p = effective_key props p \<and>
         (GetCppPropTypeName p = Some T \<longrightarrow>
            (\<exists>W. GenerateSource_prop props i p w = Some W \<and>
                 code W = code w @ (if i > 0 then nl else []) @
                   cpp_getter_text (indent_str w) T (PropNameToIdentifier (name p))
                     (effective_key props p) @
                   (if get_readonly p then []
                    else cpp_setter_text (indent_str w) p T (PropNameToIdentifier (name p))
                           (effective_key props p)))) \<and>
         code (GenerateJniLibrary_prop props p w) =
           code w @
           jni_getter_text (indent_str w) (PropNameToIdentifier (name p))
             (effective_key props p) @
           (if get_readonly p then []
            else jni_setter_text (indent_str w) (PropNameToIdentifier (name p))
                   (effective_key props p))"
proof -
  note pl = ParseProps_plain [OF assms(1,2)]
  have key: "accessor_prefix props p @ name p = effective_key props p"
    using pl(3) by (rule accessor_key_valid)
  show ?thesis
    using GenerateSource_prop_text [OF _ pl(1,2) assms(3,4), of T i]
      GenerateJniLibrary_prop_text [OF pl(1,2) assms(3,4)]
    unfolding key by blast
qed

theorem C3_witness:
  "accessor_prefix kPrefixedSchema_parsed (kSpeed\<lparr>readonly := Some True\<rparr>) @ ''speed'' =
     ''ro.com.vendor.speed''"
proof -
  let ?p = "kSpeed\<lparr>readonly := Some True\<rparr>"
  let ?w = "new_CodeWriter kIndent"
  have 1: "?p \<in> set (prop_list kPrefixedSchema_parsed)"
    by (simp add: kPrefixedSchema_parsed_def)
  have 2: "start_of_line ?w" "indent_level ?w = 0"
    by (simp_all add: new_CodeWriter_def)
  have 3: "effective_key kPrefixedSchema_parsed ?p = ''ro.com.vendor.speed''"
    by (simp add: effective_key_def get_readonly_def kPrefixedSchema_parsed_def kSpeed_def
        unset_Property_def)
  have 4: "name ?p = ''speed''"
    by (simp add: kSpeed_def unset_Property_def)
  from C3_accessor_key_with_separating_dot [OF ParseProps_kPrefixedSchema 1 2]
  have "accessor_prefix kPrefixedSchema_parsed ?p @ name ?p =
          effective_key kPrefixedSchema_parsed ?p"
    by blast
  then show ?thesis
    unfolding 3 4 .
qed

section \<open>The generated enum declarations\<close>




















end
